theory Spec2Isabelle
  imports Complex_Main
begin

section \<open>Numbers, errors and Python's arithmetic\<close>

text \<open>
  The calculator of \<^verbatim>\<open>src/main.py\<close> works on Python floats. It is modelled twice.

  First over exact arithmetic: a float is a real number, \<^verbatim>\<open>round(x, n)\<close> is rounding to
  \<open>n\<close> decimals with ties to the even neighbour, \<^verbatim>\<open>/\<close> raises \<^verbatim>\<open>ZeroDivisionError\<close> on a
  zero divisor, and \<^verbatim>\<open>**\<close> with an integer exponent raises it on \<^verbatim>\<open>0.0 ** negative\<close>.
  This model has neither the representation error of binary floating point nor its
  overflow; it serves the properties that do not depend on them.

  Then over an arbitrary arithmetic (the functions with the suffix \<open>_in\<close>): the literals,
  the operators and \<^verbatim>\<open>round\<close> are parameters, so that what is proved for every arithmetic
  holds for the binary64 arithmetic of the interpreter too. Two arithmetics are given:
  the exact one, for which the second model is the first, and the exact one with the
  \<^verbatim>\<open>OverflowError\<close> that \<^verbatim>\<open>**\<close> raises when its result leaves the range of binary64.
\<close>

datatype error = ValueError string | ZeroDivisionError | KeyError string | OverflowError

definition bind_err :: "error + 'a \<Rightarrow> ('a \<Rightarrow> error + 'b) \<Rightarrow> error + 'b" where
  "bind_err m f = (case m of Inl e \<Rightarrow> Inl e | Inr x \<Rightarrow> f x)"

definition py_truediv :: "real \<Rightarrow> real \<Rightarrow> error + real" where
  "py_truediv a b = (if b = 0 then Inl ZeroDivisionError else Inr (a / b))"

definition py_pow :: "real \<Rightarrow> int \<Rightarrow> error + real" where
  "py_pow x n =
     (if 0 \<le> n then Inr (x ^ nat n)
      else if x = 0 then Inl ZeroDivisionError
      else Inr (1 / x ^ nat (- n)))"

definition round_half_even :: "real \<Rightarrow> int" where
  "round_half_even y =
     (let f = \<lfloor>y\<rfloor>; d = y - of_int f
      in if d < 1 / 2 then f
         else if 1 / 2 < d then f + 1
         else if even f then f else f + 1)"

definition py_round :: "real \<Rightarrow> nat \<Rightarrow> real" where
  "py_round x ndigits = of_int (round_half_even (x * 10 ^ ndigits)) / 10 ^ ndigits"

definition getitem :: "(string \<times> 'v) list \<Rightarrow> string \<Rightarrow> error + 'v" where
  "getitem d k = (case map_of d k of None \<Rightarrow> Inl (KeyError k) | Some v \<Rightarrow> Inr v)"

section \<open>Constants of the module\<close>

definition PERCENTAGE_BY_CREDIT_SCORE :: "(string \<times> real) list" where
  "PERCENTAGE_BY_CREDIT_SCORE =
     [(''A'', 1), (''B'', 0.75), (''C'', 0.5), (''D'', 0.25), (''E'', 0.1)]"

definition MAX_LIMITS :: "(string \<times> real) list" where
  "MAX_LIMITS = [(''A'', 30000), (''others'', 20000)]"

definition TAEG :: real where
  "TAEG = 0.15"

definition PERIODIC_RATE :: real where
  "PERIODIC_RATE = py_round ((1 + TAEG) powr (30 / 365) - 1) 6"

section \<open>The calculator\<close>

record CreditCalculator =
  taeg :: real
  periodic_rate :: real

definition init :: "real \<Rightarrow> real \<Rightarrow> CreditCalculator" where
  "init t p = \<lparr>taeg = t, periodic_rate = p\<rparr>"

text \<open>\<^verbatim>\<open>CreditCalculator()\<close>: both arguments take their defaults.\<close>

definition default_calculator :: CreditCalculator where
  "default_calculator = init TAEG PERIODIC_RATE"

definition compute_rate_factor :: "CreditCalculator \<Rightarrow> int \<Rightarrow> error + real" where
  "compute_rate_factor self periods =
     bind_err (py_pow (1 + periodic_rate self) periods) (\<lambda>p1.
     bind_err (py_pow (1 + periodic_rate self) periods) (\<lambda>p2.
       py_truediv (periodic_rate self * p1) (p2 - 1)))"

definition compute_max_installment ::
    "CreditCalculator \<Rightarrow> string \<Rightarrow> int \<Rightarrow> error + real" where
  "compute_max_installment self credit_score periods =
     (if map_of PERCENTAGE_BY_CREDIT_SCORE credit_score = None
      then Inl (ValueError ''Invalid credit score'')
      else
        bind_err (if credit_score = ''A'' then getitem MAX_LIMITS ''A''
                  else getitem MAX_LIMITS ''others'') (\<lambda>max_limit.
        bind_err (getitem PERCENTAGE_BY_CREDIT_SCORE credit_score) (\<lambda>percentage.
        bind_err (compute_rate_factor self periods) (\<lambda>rate_factor.
          Inr (max_limit * percentage * rate_factor)))))"

text \<open>
  The argument of the last \<^verbatim>\<open>round\<close> of \<^verbatim>\<open>compute_limit\<close> (lines 73 and 74):
  \<^verbatim>\<open>(final_installment * (1 - (1 + self.periodic_rate) ** -periods)) / self.periodic_rate\<close>.
\<close>

definition present_value :: "CreditCalculator \<Rightarrow> real \<Rightarrow> int \<Rightarrow> error + real" where
  "present_value self final_installment periods =
     bind_err (py_pow (1 + periodic_rate self) (- periods)) (\<lambda>p.
       py_truediv (final_installment * (1 - p)) (periodic_rate self))"

definition compute_limit ::
    "CreditCalculator \<Rightarrow> string \<Rightarrow> real \<Rightarrow> int \<Rightarrow> error + real" where
  "compute_limit self credit_score sum_inflow_6m periods =
     bind_err (py_truediv sum_inflow_6m 6) (\<lambda>avg.
     bind_err (py_truediv avg 3) (\<lambda>third.
       let monthly_installment_capacity = py_round third 2 in
       bind_err (compute_max_installment self credit_score periods) (\<lambda>max_installment.
         let final_installment = py_round (min monthly_installment_capacity max_installment) 2 in
         bind_err (present_value self final_installment periods) (\<lambda>pv.
           Inr (py_round pv 2)))))"

record InstallmentRow =
  installment_no :: int
  monthly_installment :: real
  interest :: real
  capital :: real
  remaining_capital :: real

text \<open>
  The body of the \<^verbatim>\<open>for\<close> loop of \<^verbatim>\<open>compute_monthly_installments\<close>, run over the values
  of \<^verbatim>\<open>range(1, periods + 1)\<close>; the state is \<^verbatim>\<open>amount\<close> and \<^verbatim>\<open>rows\<close>.
\<close>

fun installment_loop ::
    "CreditCalculator \<Rightarrow> real \<Rightarrow> int list \<Rightarrow> real \<Rightarrow> InstallmentRow list
      \<Rightarrow> real \<times> InstallmentRow list" where
  "installment_loop self mi [] amount rows = (amount, rows)"
| "installment_loop self mi (i # is) amount rows =
     (let interest_v = py_round (amount * periodic_rate self) 2;
          capital_v = py_round (mi - interest_v) 2;
          remaining = py_round (amount - capital_v) 2
      in installment_loop self mi is remaining
           (rows @ [\<lparr>installment_no = i, monthly_installment = mi, interest = interest_v,
                     capital = capital_v, remaining_capital = max 0 remaining\<rparr>]))"

definition compute_monthly_installments ::
    "CreditCalculator \<Rightarrow> real \<Rightarrow> int \<Rightarrow> error + real \<times> InstallmentRow list" where
  "compute_monthly_installments self amount periods =
     bind_err (compute_rate_factor self periods) (\<lambda>rate_factor.
       let mi = py_round (rate_factor * amount) 2 in
       Inr (mi, snd (installment_loop self mi [1..periods] amount [])))"

section \<open>The schedule in the words of the specification\<close>

text \<open>
  \<open>spec_balance r installment amount k\<close> is the balance carried into period \<open>k + 1\<close>: the
  financed amount for the first period, afterwards the unclamped remaining capital of
  the period before. \<open>spec_row r installment amount k\<close> is the row of period \<open>k + 1\<close>.
\<close>

fun spec_balance :: "real \<Rightarrow> real \<Rightarrow> real \<Rightarrow> nat \<Rightarrow> real" where
  "spec_balance r installment amount 0 = amount"
| "spec_balance r installment amount (Suc i) =
     (let balance = spec_balance r installment amount i;
          interest_i = py_round (balance * r) 2;
          capital_i = py_round (installment - interest_i) 2
      in py_round (balance - capital_i) 2)"

definition spec_row :: "real \<Rightarrow> real \<Rightarrow> real \<Rightarrow> nat \<Rightarrow> InstallmentRow" where
  "spec_row r installment amount k =
     (let balance = spec_balance r installment amount k;
          interest_i = py_round (balance * r) 2;
          capital_i = py_round (installment - interest_i) 2;
          remaining_i = py_round (balance - capital_i) 2
      in \<lparr>installment_no = int k + 1, monthly_installment = installment,
          interest = interest_i, capital = capital_i,
          remaining_capital = max 0 remaining_i\<rparr>)"

section \<open>The calculator over an arbitrary arithmetic\<close>

text \<open>
  An arithmetic: \<open>f_lit x\<close> is the float of the literal or integer \<open>x\<close>, \<open>f_add\<close>, \<open>f_sub\<close>
  and \<open>f_mul\<close> are the operators \<^verbatim>\<open>+\<close>, \<^verbatim>\<open>-\<close> and \<^verbatim>\<open>*\<close> on floats, \<open>f_truediv\<close> and \<open>f_pow\<close>
  are \<^verbatim>\<open>/\<close> and \<^verbatim>\<open>**\<close> (with an integer exponent) with the errors they raise, and
  \<open>f_round\<close> is \<^verbatim>\<open>round(x, n)\<close>. A float is given by the real number it denotes, and
  \<^verbatim>\<open>min\<close> and \<^verbatim>\<open>max\<close> compare these numbers. An integer that meets a float in an
  operator becomes a float first (\<open>f_lit\<close>); the product of the two integers of grade A,
  \<open>30000 * 1\<close>, is taken as a product of floats, which gives the same float.
\<close>

record arith =
  f_lit :: "real \<Rightarrow> real"
  f_add :: "real \<Rightarrow> real \<Rightarrow> real"
  f_sub :: "real \<Rightarrow> real \<Rightarrow> real"
  f_mul :: "real \<Rightarrow> real \<Rightarrow> real"
  f_truediv :: "real \<Rightarrow> real \<Rightarrow> error + real"
  f_pow :: "real \<Rightarrow> int \<Rightarrow> error + real"
  f_round :: "real \<Rightarrow> nat \<Rightarrow> real"

definition compute_rate_factor_in :: "arith \<Rightarrow> CreditCalculator \<Rightarrow> int \<Rightarrow> error + real" where
  "compute_rate_factor_in ar self periods =
     bind_err (f_pow ar (f_add ar (f_lit ar 1) (periodic_rate self)) periods) (\<lambda>p1.
     bind_err (f_pow ar (f_add ar (f_lit ar 1) (periodic_rate self)) periods) (\<lambda>p2.
       f_truediv ar (f_mul ar (periodic_rate self) p1) (f_sub ar p2 (f_lit ar 1))))"

definition compute_max_installment_in ::
    "arith \<Rightarrow> CreditCalculator \<Rightarrow> string \<Rightarrow> int \<Rightarrow> error + real" where
  "compute_max_installment_in ar self credit_score periods =
     (if map_of PERCENTAGE_BY_CREDIT_SCORE credit_score = None
      then Inl (ValueError ''Invalid credit score'')
      else
        bind_err (if credit_score = ''A'' then getitem MAX_LIMITS ''A''
                  else getitem MAX_LIMITS ''others'') (\<lambda>max_limit.
        bind_err (getitem PERCENTAGE_BY_CREDIT_SCORE credit_score) (\<lambda>percentage.
        bind_err (compute_rate_factor_in ar self periods) (\<lambda>rate_factor.
          Inr (f_mul ar (f_mul ar (f_lit ar max_limit) (f_lit ar percentage)) rate_factor)))))"

definition present_value_in :: "arith \<Rightarrow> CreditCalculator \<Rightarrow> real \<Rightarrow> int \<Rightarrow> error + real" where
  "present_value_in ar self final_installment periods =
     bind_err (f_pow ar (f_add ar (f_lit ar 1) (periodic_rate self)) (- periods)) (\<lambda>p.
       f_truediv ar (f_mul ar final_installment (f_sub ar (f_lit ar 1) p))
         (periodic_rate self))"

definition compute_limit_in ::
    "arith \<Rightarrow> CreditCalculator \<Rightarrow> string \<Rightarrow> real \<Rightarrow> int \<Rightarrow> error + real" where
  "compute_limit_in ar self credit_score sum_inflow_6m periods =
     bind_err (f_truediv ar sum_inflow_6m (f_lit ar 6)) (\<lambda>avg.
     bind_err (f_truediv ar avg (f_lit ar 3)) (\<lambda>third.
       let monthly_installment_capacity = f_round ar third 2 in
       bind_err (compute_max_installment_in ar self credit_score periods) (\<lambda>max_installment.
         let final_installment =
               f_round ar (min monthly_installment_capacity max_installment) 2 in
         bind_err (present_value_in ar self final_installment periods) (\<lambda>pv.
           Inr (f_round ar pv 2)))))"

fun installment_loop_in ::
    "arith \<Rightarrow> CreditCalculator \<Rightarrow> real \<Rightarrow> int list \<Rightarrow> real \<Rightarrow> InstallmentRow list
      \<Rightarrow> real \<times> InstallmentRow list" where
  "installment_loop_in ar self mi [] amount rows = (amount, rows)"
| "installment_loop_in ar self mi (i # is) amount rows =
     (let interest_v = f_round ar (f_mul ar amount (periodic_rate self)) 2;
          capital_v = f_round ar (f_sub ar mi interest_v) 2;
          remaining = f_round ar (f_sub ar amount capital_v) 2
      in installment_loop_in ar self mi is remaining
           (rows @ [\<lparr>installment_no = i, monthly_installment = mi, interest = interest_v,
                     capital = capital_v, remaining_capital = max (f_lit ar 0) remaining\<rparr>]))"

definition compute_monthly_installments_in ::
    "arith \<Rightarrow> CreditCalculator \<Rightarrow> real \<Rightarrow> int \<Rightarrow> error + real \<times> InstallmentRow list" where
  "compute_monthly_installments_in ar self amount periods =
     bind_err (compute_rate_factor_in ar self periods) (\<lambda>rate_factor.
       let mi = f_round ar (f_mul ar rate_factor amount) 2 in
       Inr (mi, snd (installment_loop_in ar self mi [1..periods] amount [])))"

text \<open>The exact arithmetic of the first model.\<close>

definition exact_arith :: arith where
  "exact_arith = \<lparr>f_lit = (\<lambda>x. x), f_add = (+), f_sub = (-), f_mul = (*),
                   f_truediv = py_truediv, f_pow = py_pow, f_round = py_round\<rparr>"

text \<open>
  The exact arithmetic within the range of binary64: \<^verbatim>\<open>x ** n\<close> raises \<^verbatim>\<open>OverflowError\<close>
  when the power is too large for a binary64 number, that is, when it rounds to
  infinity: from \<open>2\<^sup>1\<^sup>0\<^sup>2\<^sup>4 - 2\<^sup>9\<^sup>7\<^sup>0\<close> on.
\<close>

definition binary64_overflow :: real where
  "binary64_overflow = 2 ^ 1024 - 2 ^ 970"

definition py_pow_binary64 :: "real \<Rightarrow> int \<Rightarrow> error + real" where
  "py_pow_binary64 x n =
     (case py_pow x n of
        Inl e \<Rightarrow> Inl e
      | Inr v \<Rightarrow> if binary64_overflow \<le> \<bar>v\<bar> then Inl OverflowError else Inr v)"

definition ranged_arith :: arith where
  "ranged_arith = exact_arith\<lparr>f_pow := py_pow_binary64\<rparr>"

text \<open>The schedule in the words of the specification, over an arithmetic.\<close>

fun spec_balance_in :: "arith \<Rightarrow> real \<Rightarrow> real \<Rightarrow> real \<Rightarrow> nat \<Rightarrow> real" where
  "spec_balance_in ar r installment amount 0 = amount"
| "spec_balance_in ar r installment amount (Suc i) =
     (let balance = spec_balance_in ar r installment amount i;
          interest_i = f_round ar (f_mul ar balance r) 2;
          capital_i = f_round ar (f_sub ar installment interest_i) 2
      in f_round ar (f_sub ar balance capital_i) 2)"

definition spec_row_in :: "arith \<Rightarrow> real \<Rightarrow> real \<Rightarrow> real \<Rightarrow> nat \<Rightarrow> InstallmentRow" where
  "spec_row_in ar r installment amount k =
     (let balance = spec_balance_in ar r installment amount k;
          interest_i = f_round ar (f_mul ar balance r) 2;
          capital_i = f_round ar (f_sub ar installment interest_i) 2;
          remaining_i = f_round ar (f_sub ar balance capital_i) 2
      in \<lparr>installment_no = int k + 1, monthly_installment = installment,
          interest = interest_i, capital = capital_i,
          remaining_capital = max (f_lit ar 0) remaining_i\<rparr>)"

section \<open>Auxiliary notions for the proofs\<close>

text \<open>A number with at most \<open>n\<close> decimals: an integer multiple of \<open>10\<^sup>-\<^sup>n\<close>.\<close>

definition on_grid :: "nat \<Rightarrow> real \<Rightarrow> bool" where
  "on_grid n x = (\<exists>k::int. x = of_int k / 10 ^ n)"

section \<open>Rounding\<close>

lemma round_half_even_of_int: "round_half_even (of_int k) = k"
  by (simp add: round_half_even_def)

lemma round_half_even_error: "\<bar>of_int (round_half_even y) - y\<bar> \<le> 1 / 2"
  unfolding round_half_even_def Let_def by (auto; linarith)

lemma py_round_on_grid: "on_grid n (py_round x n)"
  unfolding on_grid_def py_round_def by blast

lemma py_round_id: "on_grid n x \<Longrightarrow> py_round x n = x"
  unfolding on_grid_def py_round_def by (auto simp: round_half_even_of_int)

lemma on_grid_diff: "on_grid n x \<Longrightarrow> on_grid n y \<Longrightarrow> on_grid n (x - y)"
  unfolding on_grid_def
proof -
  assume "\<exists>k::int. x = of_int k / 10 ^ n" "\<exists>k::int. y = of_int k / 10 ^ n"
  then obtain a b :: int where "x = of_int a / 10 ^ n" "y = of_int b / 10 ^ n" by blast
  then have "x - y = of_int (a - b) / 10 ^ n" by (simp add: diff_divide_distrib)
  then show "\<exists>k::int. x - y = of_int k / 10 ^ n" by blast
qed

lemma py_round_error: "\<bar>py_round x n - x\<bar> \<le> 1 / (2 * 10 ^ n)"
proof -
  define z where "z = real_of_int (round_half_even (x * 10 ^ n))"
  define p :: real where "p = 10 ^ n"
  have p: "0 < p" by (simp add: p_def)
  have "\<bar>z - x * p\<bar> \<le> 1 / 2"
    unfolding z_def p_def by (rule round_half_even_error)
  then have "\<bar>z - x * p\<bar> / p \<le> (1 / 2) / p"
    using p by (intro divide_right_mono) simp_all
  moreover have "\<bar>z - x * p\<bar> / p = \<bar>z / p - x\<bar>"
  proof -
    have "z / p - x = (z - x * p) / p" using p by (simp add: diff_divide_distrib)
    then show ?thesis using p by (simp only: abs_divide)
  qed
  ultimately have "\<bar>z / p - x\<bar> \<le> 1 / (2 * p)" by simp
  then show ?thesis by (simp add: py_round_def z_def p_def)
qed

lemma py_round_zero: "py_round 0 n = 0"
  by (simp add: py_round_def round_half_even_def)

section \<open>The periodic rate\<close>

lemma pow_step_le:
  fixes a u v :: real
  assumes "0 \<le> a" "a ^ m \<le> u" "u ^ k \<le> v"
  shows "a ^ (m * k) \<le> v"
proof -
  have "(a ^ m) ^ k \<le> u ^ k" using assms(1,2) by (intro power_mono) simp_all
  then show ?thesis using assms(3) by (simp add: power_mult)
qed

lemma pow_step_ge:
  fixes a l v :: real
  assumes "0 \<le> l" "l \<le> a ^ m" "v \<le> l ^ k"
  shows "v \<le> a ^ (m * k)"
proof -
  have "l ^ k \<le> (a ^ m) ^ k" using assms(1,2) by (intro power_mono) simp_all
  then show ?thesis using assms(3) by (simp add: power_mult)
qed

lemma rate_lower_pow: "(1.0115535::real) ^ 73 < 1.15 ^ 6"
proof -
  let ?a = "1.0115535::real"
  have p2: "?a ^ 2 \<le> 1.023240483362250" by (simp add: power2_eq_square)
  have p4: "?a ^ (2 * 2) \<le> 1.047021086791412"
    by (rule pow_step_le [OF _ p2]) (simp_all add: power2_eq_square)
  have p8: "?a ^ (2 * 2 * 2) \<le> 1.096253156185870"
    by (rule pow_step_le [OF _ p4]) (simp_all add: power2_eq_square)
  have p24: "?a ^ (2 * 2 * 2 * 3) \<le> 1.317445232520646"
    by (rule pow_step_le [OF _ p8]) (simp_all add: power3_eq_cube)
  have p72: "?a ^ (2 * 2 * 2 * 3 * 3) \<le> 2.286639549031390"
    by (rule pow_step_le [OF _ p24]) (simp_all add: power3_eq_cube)
  have "?a ^ 73 = ?a ^ (2 * 2 * 2 * 3 * 3) * ?a"
    by (simp only: power_Suc2 [symmetric]) simp
  also have "\<dots> \<le> 2.286639549031390 * ?a"
    using p72 by (intro mult_right_mono) simp_all
  also have "\<dots> < 1.15 ^ 6" by (simp add: power_divide)
  finally show ?thesis .
qed

lemma rate_upper_pow: "(1.15::real) ^ 6 < 1.0115545 ^ 73"
proof -
  let ?a = "1.0115545::real"
  have p2: "1.023242506470250 \<le> ?a ^ 2" by (simp add: power2_eq_square)
  have p4: "1.047025227047519 \<le> ?a ^ (2 * 2)"
    by (rule pow_step_ge [OF _ p2]) (simp_all add: power2_eq_square)
  have p8: "1.096261826073908 \<le> ?a ^ (2 * 2 * 2)"
    by (rule pow_step_ge [OF _ p4]) (simp_all add: power2_eq_square)
  have p24: "1.317476490427447 \<le> ?a ^ (2 * 2 * 2 * 3)"
    by (rule pow_step_ge [OF _ p8]) (simp_all add: power3_eq_cube)
  have p72: "2.286802312370616 \<le> ?a ^ (2 * 2 * 2 * 3 * 3)"
    by (rule pow_step_ge [OF _ p24]) (simp_all add: power3_eq_cube)
  have "(1.15::real) ^ 6 < 2.286802312370616 * ?a" by (simp add: power_divide)
  also have "\<dots> \<le> ?a ^ (2 * 2 * 2 * 3 * 3) * ?a"
    using p72 by (intro mult_right_mono) simp_all
  also have "\<dots> = ?a ^ 73"
    by (simp only: power_Suc2 [symmetric]) simp
  finally show ?thesis .
qed

lemma periodic_rate_bounds:
  "1.0115535 < (1.15::real) powr (30 / 365)" "(1.15::real) powr (30 / 365) < 1.0115545"
proof -
  let ?x = "(1.15::real) powr (30 / 365)"
  have x0: "0 < ?x" by simp
  have "?x powr 73 = 1.15 powr 6"
    by (simp only: powr_powr) simp
  then have xp: "?x ^ 73 = 1.15 ^ 6"
    using x0 by (simp only: powr_numeral) simp
  show "1.0115535 < ?x"
  proof (rule ccontr)
    assume "\<not> 1.0115535 < ?x"
    then have "?x \<le> 1.0115535" by simp
    then have "?x ^ 73 \<le> 1.0115535 ^ 73" using x0 by (intro power_mono) simp_all
    with xp rate_lower_pow show False by linarith
  qed
  show "?x < 1.0115545"
  proof (rule ccontr)
    assume "\<not> ?x < 1.0115545"
    then have "1.0115545 \<le> ?x" by simp
    then have "(1.0115545::real) ^ 73 \<le> ?x ^ 73" by (intro power_mono) simp_all
    with xp rate_upper_pow show False by linarith
  qed
qed

lemma PERIODIC_RATE_value: "PERIODIC_RATE = 0.011554"
proof -
  let ?x = "(1.15::real) powr (30 / 365)"
  let ?y = "(?x - 1) * 10 ^ 6"
  have b: "11553.5 < ?y" "?y < 11554.5"
    using periodic_rate_bounds by simp_all
  have f: "\<lfloor>?y\<rfloor> = 11553 \<or> \<lfloor>?y\<rfloor> = 11554"
    using b by linarith
  have "round_half_even ?y = 11554"
    using f b unfolding round_half_even_def Let_def by (auto; linarith)
  then show ?thesis
    by (simp add: PERIODIC_RATE_def TAEG_def py_round_def)
qed

section \<open>The rate factor\<close>

lemma bind_err_Inr [simp]: "bind_err (Inr x) f = f x"
  by (simp add: bind_err_def)

lemma bind_err_Inl [simp]: "bind_err (Inl e) f = Inl e"
  by (simp add: bind_err_def)

lemma growth_gt_one:
  fixes r :: real
  assumes "0 < r" "1 \<le> n"
  shows "1 < (1 + r) ^ nat n"
  using assms by (intro one_less_power) simp_all

lemma compute_rate_factor_value:
  assumes "0 < periodic_rate self" "1 \<le> periods"
  shows "compute_rate_factor self periods =
           Inr (periodic_rate self * (1 + periodic_rate self) ^ nat periods
                / ((1 + periodic_rate self) ^ nat periods - 1))"
proof -
  have "(1 + periodic_rate self) ^ nat periods \<noteq> 1"
    using growth_gt_one [OF assms] by simp
  then show ?thesis
    using assms by (simp add: compute_rate_factor_def py_pow_def py_truediv_def)
qed

lemma compute_rate_factor_zero: "compute_rate_factor self 0 = Inl ZeroDivisionError"
  by (simp add: compute_rate_factor_def py_pow_def py_truediv_def)

lemma compute_rate_factor_negative:
  assumes "0 < periodic_rate self" "periods < 0"
  shows "compute_rate_factor self periods =
           Inr (periodic_rate self * (1 / (1 + periodic_rate self) ^ nat (- periods))
                / (1 / (1 + periodic_rate self) ^ nat (- periods) - 1))"
proof -
  have "1 < (1 + periodic_rate self) ^ nat (- periods)"
    using assms by (intro one_less_power) simp_all
  then have "(1 + periodic_rate self) ^ nat (- periods) \<noteq> 1" by simp
  then show ?thesis
    using assms by (simp add: compute_rate_factor_def py_pow_def py_truediv_def)
qed

lemma rate_factor_pos:
  fixes r :: real
  assumes "0 < r" "1 \<le> n"
  shows "0 < r * (1 + r) ^ nat n / ((1 + r) ^ nat n - 1)"
  using assms growth_gt_one [OF assms] by simp

lemma present_value_value:
  assumes "0 < periodic_rate self" "1 \<le> periods"
  shows "present_value self x periods =
           Inr (x * (1 - 1 / (1 + periodic_rate self) ^ nat periods) / periodic_rate self)"
  using assms by (simp add: present_value_def py_pow_def py_truediv_def)

text \<open>
  C5: for a positive periodic rate \<open>r\<close> and \<open>periods \<ge> 1\<close>, the rate factor of
  \<open>compute_rate_factor\<close> and the present-value factor \<open>(1 - (1 + r)\<^sup>-\<^sup>n) / r\<close> of the last
  step of \<open>compute_limit\<close> are exact reciprocals over exact arithmetic: their product is 1,
  so the present value of the installment \<open>f * a\<close> sized for a principal \<open>a\<close> is \<open>a\<close> again.
\<close>
theorem rate_factor_present_value_reciprocal:
  assumes "0 < periodic_rate self" "1 \<le> periods"
  shows "\<exists>f p. compute_rate_factor self periods = Inr f \<and>
               present_value self 1 periods = Inr p \<and> f * p = 1 \<and>
               p = (1 - (1 + periodic_rate self) powi (- periods)) / periodic_rate self \<and>
               (\<forall>a. present_value self (f * a) periods = Inr a)"
proof -
  define r where "r = periodic_rate self"
  define q where "q = (1 + r) ^ nat periods"
  have r: "0 < r" using assms by (simp add: r_def)
  have q: "1 < q" unfolding q_def using r assms(2) by (rule growth_gt_one)
  have qi: "(1 + r) powi (- periods) = 1 / q"
    using assms(2) r by (simp add: q_def power_int_def field_simps)
  have fp: "r * q / (q - 1) * ((1 - 1 / q) / r) = 1"
    using r q by (simp add: field_simps)
  have fa: "r * q / (q - 1) * a * (1 - 1 / q) / r = a" for a
    using r q by (simp add: field_simps)
  have f: "compute_rate_factor self periods = Inr (r * q / (q - 1))"
    by (simp add: compute_rate_factor_value [OF assms] r_def q_def)
  have p: "present_value self x periods = Inr (x * (1 - 1 / q) / r)" for x
    by (simp add: present_value_value [OF assms] r_def q_def)
  have p1: "present_value self 1 periods = Inr ((1 - 1 / q) / r)"
    using p [of 1] by simp
  have pa: "\<forall>a. present_value self (r * q / (q - 1) * a) periods = Inr a"
    using fa by (simp only: p) simp
  have pq: "(1 - 1 / q) / r = (1 - (1 + periodic_rate self) powi (- periods)) / periodic_rate self"
    by (simp only: qi r_def [symmetric])
  show ?thesis
    using f p1 fp pq pa by blast
qed

text \<open>
  C5, at the default calculator with three periods.
\<close>

theorem rate_factor_present_value_reciprocal_witness:
  "0 < periodic_rate default_calculator \<and> (1::int) \<le> 3 \<and>
   (\<exists>f p. compute_rate_factor default_calculator 3 = Inr f \<and>
          present_value default_calculator 1 3 = Inr p \<and> f * p = 1 \<and>
          p = (1 - (1 + periodic_rate default_calculator) powi (- 3))
                / periodic_rate default_calculator \<and>
          (\<forall>a. present_value default_calculator (f * a) 3 = Inr a))"
proof -
  have h: "0 < periodic_rate default_calculator"
    by (simp add: default_calculator_def init_def PERIODIC_RATE_value)
  show ?thesis
    using h rate_factor_present_value_reciprocal [OF h, of 3] by simp
qed

lemma rate_factor_exact_nonincreasing:
  assumes "0 < periodic_rate self" "1 \<le> n"
  shows "\<exists>f g. compute_rate_factor self n = Inr f \<and>
               compute_rate_factor self (n + 1) = Inr g \<and> 0 < f \<and> 0 < g \<and> g \<le> f"
proof -
  define r where "r = periodic_rate self"
  define q where "q = (1 + r) ^ nat n"
  have r: "0 < r" using assms by (simp add: r_def)
  have q: "1 < q" unfolding q_def using r assms(2) by (rule growth_gt_one)
  have n1: "nat (n + 1) = Suc (nat n)" using assms(2) by simp
  have q1: "(1 + r) ^ nat (n + 1) = q * (1 + r)" by (simp add: n1 q_def)
  have qq: "1 < q * (1 + r)" using q r by (smt (verit) mult_less_cancel_left2)
  have le: "r * (q * (1 + r)) / (q * (1 + r) - 1) \<le> r * q / (q - 1)"
  proof -
    have "(q * (1 + r)) * (q - 1) \<le> q * (q * (1 + r) - 1)"
      using q r by (simp add: algebra_simps)
    then have "(q * (1 + r)) / (q * (1 + r) - 1) \<le> q / (q - 1)"
      using q qq by (simp add: field_simps)
    then show ?thesis using r by (simp add: mult_left_mono flip: times_divide_eq_right)
  qed
  have n1': "1 \<le> n + 1" using assms(2) by simp
  have pf: "0 < r * q / (q - 1)" using r q by simp
  have pg: "0 < r * (q * (1 + r)) / (q * (1 + r) - 1)" using r q qq by simp
  show ?thesis
    using le pf pg
    by (simp add: compute_rate_factor_value [OF assms] compute_rate_factor_value [OF assms(1) n1']
        r_def [symmetric] q_def [symmetric] q1)
qed

section \<open>Grades and the credit limit\<close>

lemma percentage_lookup_None:
  "map_of PERCENTAGE_BY_CREDIT_SCORE g = None \<longleftrightarrow> g \<notin> {''A'', ''B'', ''C'', ''D'', ''E''}"
  by (simp add: PERCENTAGE_BY_CREDIT_SCORE_def)

lemma compute_max_installment_invalid:
  assumes "g \<notin> {''A'', ''B'', ''C'', ''D'', ''E''}"
  shows "compute_max_installment self g periods = Inl (ValueError ''Invalid credit score'')"
  using assms by (simp add: compute_max_installment_def percentage_lookup_None)

lemma cmi_A: "compute_max_installment self ''A'' periods =
    bind_err (compute_rate_factor self periods) (\<lambda>f. Inr (30000 * 1 * f))"
  by (simp add: compute_max_installment_def PERCENTAGE_BY_CREDIT_SCORE_def MAX_LIMITS_def getitem_def)

lemma cmi_B: "compute_max_installment self ''B'' periods =
    bind_err (compute_rate_factor self periods) (\<lambda>f. Inr (20000 * 0.75 * f))"
  by (simp add: compute_max_installment_def PERCENTAGE_BY_CREDIT_SCORE_def MAX_LIMITS_def getitem_def)

lemma cmi_C: "compute_max_installment self ''C'' periods =
    bind_err (compute_rate_factor self periods) (\<lambda>f. Inr (20000 * 0.5 * f))"
  by (simp add: compute_max_installment_def PERCENTAGE_BY_CREDIT_SCORE_def MAX_LIMITS_def getitem_def)

lemma cmi_D: "compute_max_installment self ''D'' periods =
    bind_err (compute_rate_factor self periods) (\<lambda>f. Inr (20000 * 0.25 * f))"
  by (simp add: compute_max_installment_def PERCENTAGE_BY_CREDIT_SCORE_def MAX_LIMITS_def getitem_def)

lemma cmi_E: "compute_max_installment self ''E'' periods =
    bind_err (compute_rate_factor self periods) (\<lambda>f. Inr (20000 * 0.1 * f))"
  by (simp add: compute_max_installment_def PERCENTAGE_BY_CREDIT_SCORE_def MAX_LIMITS_def getitem_def)

lemma compute_limit_invalid:
  assumes "g \<notin> {''A'', ''B'', ''C'', ''D'', ''E''}"
  shows "compute_limit self g s periods = Inl (ValueError ''Invalid credit score'')"
  by (simp add: compute_limit_def py_truediv_def Let_def compute_max_installment_invalid [OF assms])


lemma compute_max_installment_valid:
  assumes "g \<in> {''A'', ''B'', ''C'', ''D'', ''E''}"
  shows "\<exists>c. 0 < c \<and> compute_max_installment self g periods =
           bind_err (compute_rate_factor self periods) (\<lambda>f. Inr (c * f))"
proof -
  have a: "\<exists>c::real. 0 < c \<and> (\<lambda>f::real. Inr (30000 * 1 * f) :: error + real) = (\<lambda>f. Inr (c * f))"
    by (intro exI [of _ 30000]) simp
  have b: "\<exists>c::real. 0 < c \<and> (\<lambda>f::real. Inr (20000 * 0.75 * f) :: error + real) = (\<lambda>f. Inr (c * f))"
    by (intro exI [of _ 15000]) simp
  have c: "\<exists>c::real. 0 < c \<and> (\<lambda>f::real. Inr (20000 * 0.5 * f) :: error + real) = (\<lambda>f. Inr (c * f))"
    by (intro exI [of _ 10000]) simp
  have d: "\<exists>c::real. 0 < c \<and> (\<lambda>f::real. Inr (20000 * 0.25 * f) :: error + real) = (\<lambda>f. Inr (c * f))"
    by (intro exI [of _ 5000]) simp
  have e: "\<exists>c::real. 0 < c \<and> (\<lambda>f::real. Inr (20000 * 0.1 * f) :: error + real) = (\<lambda>f. Inr (c * f))"
    by (intro exI [of _ 2000]) simp
  from assms show ?thesis
  proof (elim insertE emptyE)
    assume "g = ''A''" then show ?thesis using a by (simp only: cmi_A) metis
  next
    assume "g = ''B''" then show ?thesis using b by (simp only: cmi_B) metis
  next
    assume "g = ''C''" then show ?thesis using c by (simp only: cmi_C) metis
  next
    assume "g = ''D''" then show ?thesis using d by (simp only: cmi_D) metis
  next
    assume "g = ''E''" then show ?thesis using e by (simp only: cmi_E) metis
  qed
qed

lemma compute_max_installment_pos:
  assumes "0 < periodic_rate self" "1 \<le> periods" "g \<in> {''A'', ''B'', ''C'', ''D'', ''E''}"
  shows "\<exists>m. compute_max_installment self g periods = Inr m \<and> 0 < m"
proof -
  define f where "f = periodic_rate self * (1 + periodic_rate self) ^ nat periods
            / ((1 + periodic_rate self) ^ nat periods - 1)"
  have f: "0 < f" unfolding f_def using assms(1,2) by (rule rate_factor_pos)
  have cf: "compute_rate_factor self periods = Inr f"
    unfolding f_def using assms(1,2) by (rule compute_rate_factor_value)
  obtain c where c: "0 < c" "compute_max_installment self g periods =
           bind_err (compute_rate_factor self periods) (\<lambda>f. Inr (c * f))"
    using compute_max_installment_valid [OF assms(3)] by blast
  have "compute_max_installment self g periods = Inr (c * f)"
    by (simp add: c(2) cf)
  moreover have "0 < c * f" using c(1) f by simp
  ultimately show ?thesis by blast
qed

lemma compute_limit_steps:
  assumes "compute_max_installment self g periods = Inr m"
    and "0 < periodic_rate self" "1 \<le> periods"
  shows "compute_limit self g s periods =
           Inr (py_round (py_round (min (py_round (s / 6 / 3) 2) m) 2
                  * (1 - 1 / (1 + periodic_rate self) ^ nat periods) / periodic_rate self) 2)"
  by (simp add: compute_limit_def py_truediv_def Let_def assms(1)
      present_value_value [OF assms(2,3)])



lemma zero_inflow_exact:
  assumes "0 < periodic_rate self" "1 \<le> periods" "g \<in> {''A'', ''B'', ''C'', ''D'', ''E''}"
  shows "compute_limit self g 0 periods = Inr 0"
proof -
  obtain m where m: "compute_max_installment self g periods = Inr m" "0 < m"
    using compute_max_installment_pos [OF assms] by blast
  have "min 0 m = 0" using m(2) by simp
  then show ?thesis
    by (simp add: compute_limit_steps [OF m(1) assms(1,2)] py_round_zero)
qed

section \<open>The value of the periodic rate\<close>

text \<open>
  C6, as the code has it: with the annual rate 0.15 and a period of 30 days, the periodic
  rate fixed when the module is loaded is \<open>round((1 + 0.15)\<^bsup>30/365\<^esup> - 1, 6)\<close>, this value is
  0.011554, and it is the rate of the default calculator.
\<close>

theorem periodic_rate_is_0_011554:
  "PERIODIC_RATE = py_round ((1 + 0.15) powr (30 / 365) - 1) 6 \<and>
   PERIODIC_RATE = 0.011554 \<and>
   periodic_rate default_calculator = PERIODIC_RATE"
  using PERIODIC_RATE_value
  by (simp add: default_calculator_def init_def) (simp add: PERIODIC_RATE_def TAEG_def)

text \<open>
  C6 as stated gives the value 0.011600; the periodic rate is not that number.
\<close>

theorem periodic_rate_not_0_0116: "PERIODIC_RATE \<noteq> 0.011600"
  by (simp add: PERIODIC_RATE_value)

section \<open>Periods below one\<close>

lemma compute_max_installment_zero:
  assumes "g \<in> {''A'', ''B'', ''C'', ''D'', ''E''}"
  shows "compute_max_installment self g 0 = Inl ZeroDivisionError"
proof -
  obtain c where "compute_max_installment self g 0 =
           bind_err (compute_rate_factor self 0) (\<lambda>f. Inr (c * f))"
    using compute_max_installment_valid [OF assms] by blast
  then show ?thesis by (simp add: compute_rate_factor_zero)
qed

lemma compute_limit_zero:
  assumes "g \<in> {''A'', ''B'', ''C'', ''D'', ''E''}"
  shows "compute_limit self g s 0 = Inl ZeroDivisionError"
  by (simp add: compute_limit_def py_truediv_def Let_def compute_max_installment_zero [OF assms])

lemma compute_monthly_installments_zero:
  "compute_monthly_installments self a 0 = Inl ZeroDivisionError"
  by (simp add: compute_monthly_installments_def compute_rate_factor_zero)

lemma compute_rate_factor_negative_ok:
  assumes "0 < periodic_rate self" "periods < 0"
  shows "\<exists>v. compute_rate_factor self periods = Inr v"
  using compute_rate_factor_negative [OF assms] by blast

lemma compute_max_installment_negative_ok:
  assumes "0 < periodic_rate self" "periods < 0" "g \<in> {''A'', ''B'', ''C'', ''D'', ''E''}"
  shows "\<exists>v. compute_max_installment self g periods = Inr v"
proof -
  obtain f where f: "compute_rate_factor self periods = Inr f"
    using compute_rate_factor_negative_ok [OF assms(1,2)] by blast
  obtain c where "compute_max_installment self g periods =
           bind_err (compute_rate_factor self periods) (\<lambda>f. Inr (c * f))"
    using compute_max_installment_valid [OF assms(3)] by blast
  then show ?thesis by (simp add: f)
qed

lemma compute_limit_negative_ok:
  assumes "0 < periodic_rate self" "periods < 0" "g \<in> {''A'', ''B'', ''C'', ''D'', ''E''}"
  shows "\<exists>v. compute_limit self g s periods = Inr v"
proof -
  obtain m where m: "compute_max_installment self g periods = Inr m"
    using compute_max_installment_negative_ok [OF assms] by blast
  show ?thesis
    using assms(1,2)
    by (simp add: compute_limit_def py_truediv_def Let_def m present_value_def py_pow_def)
qed

lemma compute_monthly_installments_negative:
  assumes "0 < periodic_rate self" "periods < 0"
  shows "\<exists>mi. compute_monthly_installments self a periods = Inr (mi, [])"
proof -
  obtain f where f: "compute_rate_factor self periods = Inr f"
    using compute_rate_factor_negative_ok [OF assms] by blast
  show ?thesis
    using assms(2) by (simp add: compute_monthly_installments_def f Let_def)
qed

text \<open>
  C3, as the code has it: no operation checks \<open>periods\<close>. With \<open>periods = 0\<close> each of the
  four operations (on a recognised grade, where it takes one) ends in the
  \<open>ZeroDivisionError\<close> of the division inside \<open>compute_rate_factor\<close>, so the failure
  comes out of the arithmetic and not before it. Negative periods are not rejected
  either: with \<open>periods = -1\<close> the default calculator's \<open>compute_rate_factor\<close>,
  \<open>compute_max_installment\<close> and \<open>compute_limit\<close> return a number, and
  \<open>compute_monthly_installments\<close> returns an installment with an empty schedule.
\<close>

theorem periods_below_one:
  assumes "g \<in> {''A'', ''B'', ''C'', ''D'', ''E''}"
  shows "compute_rate_factor self 0 = Inl ZeroDivisionError \<and>
         compute_max_installment self g 0 = Inl ZeroDivisionError \<and>
         compute_limit self g s 0 = Inl ZeroDivisionError \<and>
         compute_monthly_installments self a 0 = Inl ZeroDivisionError \<and>
         (\<exists>v. compute_rate_factor default_calculator (- 1) = Inr v) \<and>
         (\<exists>v. compute_max_installment default_calculator g (- 1) = Inr v) \<and>
         (\<exists>v. compute_limit default_calculator g s (- 1) = Inr v) \<and>
         (\<exists>mi. compute_monthly_installments default_calculator a (- 1) = Inr (mi, []))"
proof -
  have h: "0 < periodic_rate default_calculator"
    by (simp add: default_calculator_def init_def PERIODIC_RATE_value)
  have m: "(- 1 :: int) < 0" by simp
  show ?thesis
  proof (intro conjI)
    show "compute_rate_factor self 0 = Inl ZeroDivisionError"
      by (rule compute_rate_factor_zero)
    show "compute_max_installment self g 0 = Inl ZeroDivisionError"
      using assms by (rule compute_max_installment_zero)
    show "compute_limit self g s 0 = Inl ZeroDivisionError"
      using assms by (rule compute_limit_zero)
    show "compute_monthly_installments self a 0 = Inl ZeroDivisionError"
      by (rule compute_monthly_installments_zero)
    show "\<exists>v. compute_rate_factor default_calculator (- 1) = Inr v"
      using h m by (rule compute_rate_factor_negative_ok)
    show "\<exists>v. compute_max_installment default_calculator g (- 1) = Inr v"
      using h m assms by (rule compute_max_installment_negative_ok)
    show "\<exists>v. compute_limit default_calculator g s (- 1) = Inr v"
      using h m assms by (rule compute_limit_negative_ok)
    show "\<exists>mi. compute_monthly_installments default_calculator a (- 1) = Inr (mi, [])"
      using h m by (rule compute_monthly_installments_negative)
  qed
qed

text \<open>
  C3 as amended, at the default calculator, grade A, inflow 6000 and amount 9000.
\<close>

theorem periods_below_one_witness:
  "''A'' \<in> {''A'', ''B'', ''C'', ''D'', ''E''} \<and>
   compute_rate_factor default_calculator 0 = Inl ZeroDivisionError \<and>
   compute_max_installment default_calculator ''A'' 0 = Inl ZeroDivisionError \<and>
   compute_limit default_calculator ''A'' 6000 0 = Inl ZeroDivisionError \<and>
   compute_monthly_installments default_calculator 9000 0 = Inl ZeroDivisionError \<and>
   (\<exists>v. compute_rate_factor default_calculator (- 1) = Inr v) \<and>
   (\<exists>v. compute_max_installment default_calculator ''A'' (- 1) = Inr v) \<and>
   (\<exists>v. compute_limit default_calculator ''A'' 6000 (- 1) = Inr v) \<and>
   (\<exists>mi. compute_monthly_installments default_calculator 9000 (- 1) = Inr (mi, []))"
proof -
  have g: "''A'' \<in> {''A'', ''B'', ''C'', ''D'', ''E''}" by simp
  show ?thesis
    by (rule conjI [OF g periods_below_one [OF g, of default_calculator 6000 9000]])
qed

text \<open>
  C3 as stated fails: on \<open>periods = -1\<close> the default calculator's \<open>compute_rate_factor\<close>
  raises nothing and returns \<open>-1\<close>.
\<close>

theorem rate_factor_accepts_negative_periods:
  "compute_rate_factor default_calculator (- 1) = Inr (- 1)"
proof -
  have h: "0 < periodic_rate default_calculator"
    by (simp add: default_calculator_def init_def PERIODIC_RATE_value)
  have r: "periodic_rate default_calculator = 0.011554"
    by (simp add: default_calculator_def init_def PERIODIC_RATE_value)
  show ?thesis
    using compute_rate_factor_negative [OF h, of "- 1"] by (simp add: r)
qed

section \<open>The amortization schedule\<close>

lemma spec_balance_shift:
  "spec_balance r mi (spec_balance r mi a (Suc 0)) k = spec_balance r mi a (Suc k)"
  by (induction k) (simp_all add: Let_def)

lemma spec_row_shift:
  "spec_row r mi (spec_balance r mi a (Suc 0)) k
     = (spec_row r mi a (Suc k))\<lparr>installment_no := int k + 1\<rparr>"
  unfolding spec_row_def Let_def
  by (simp only: spec_balance_shift) simp

lemma upt_Suc_map: "map f [0..<Suc n] = f 0 # map (\<lambda>k. f (Suc k)) [0..<n]"
  by (simp only: upt_conv_Cons [of 0 "Suc n"] map_Suc_upt [symmetric] list.map map_map o_def)

lemma installment_loop_rows:
  "nat (j - i + 1) = n \<Longrightarrow>
   installment_loop self mi [i..j] a rows =
     (spec_balance (periodic_rate self) mi a n,
      rows @ map (\<lambda>k. (spec_row (periodic_rate self) mi a k)\<lparr>installment_no := i + int k\<rparr>)
               [0..<n])"
proof (induction n arbitrary: i a rows)
  case 0
  then have "j < i" by simp
  then show ?case by simp
next
  case (Suc n)
  let ?r = "periodic_rate self"
  let ?a' = "spec_balance ?r mi a (Suc 0)"
  from Suc.prems have le: "i \<le> j" and n: "nat (j - (i + 1) + 1) = n" by simp_all
  have up: "[i..j] = i # [i + 1..j]" using le by (rule upto_rec1)
  have row0: "\<lparr>installment_no = i, monthly_installment = mi,
                interest = py_round (a * ?r) 2,
                capital = py_round (mi - py_round (a * ?r) 2) 2,
                remaining_capital = max 0 ?a'\<rparr>
              = (spec_row ?r mi a 0)\<lparr>installment_no := i + int 0\<rparr>"
    by (simp add: spec_row_def Let_def)
  have step: "installment_loop self mi [i..j] a rows =
      installment_loop self mi [i + 1..j] ?a'
        (rows @ [(spec_row ?r mi a 0)\<lparr>installment_no := i + int 0\<rparr>])"
    by (simp only: up installment_loop.simps Let_def row0 [symmetric] spec_balance.simps)
  have pt: "(spec_row ?r mi ?a' k)\<lparr>installment_no := i + 1 + int k\<rparr>
      = (spec_row ?r mi a (Suc k))\<lparr>installment_no := i + int (Suc k)\<rparr>" for k
    by (simp only: spec_row_shift) (simp add: add.commute add.left_commute)
  have rows': "map (\<lambda>k. (spec_row ?r mi ?a' k)\<lparr>installment_no := i + 1 + int k\<rparr>) [0..<n]
      = map (\<lambda>k. (spec_row ?r mi a (Suc k))\<lparr>installment_no := i + int (Suc k)\<rparr>) [0..<n]"
    by (simp only: pt)
  show ?case
    by (simp only: step Suc.IH [OF n] spec_balance_shift rows' upt_Suc_map [where n = n]
        append_assoc append_Cons append_Nil)
qed


lemma spec_row_number: "(spec_row r mi a k)\<lparr>installment_no := 1 + int k\<rparr> = spec_row r mi a k"
  by (simp add: spec_row_def Let_def)

lemma compute_monthly_installments_rows:
  assumes "compute_rate_factor self periods = Inr f"
  shows "compute_monthly_installments self amount periods =
           Inr (py_round (f * amount) 2,
                map (spec_row (periodic_rate self) (py_round (f * amount) 2) amount)
                    [0..<nat periods])"
proof -
  have n: "nat (periods - 1 + 1) = nat periods" by simp
  show ?thesis
    by (simp only: compute_monthly_installments_def assms bind_err_Inr Let_def
        installment_loop_rows [OF n] snd_conv append_Nil spec_row_number)
qed

subsection \<open>The schedule of 9000 over three periods\<close>

lemma default_rate_factor_3:
  "compute_rate_factor default_calculator 3 = Inr (129383003393532433 / 379349436864500000)"
proof -
  have h: "0 < periodic_rate default_calculator"
    by (simp add: default_calculator_def init_def PERIODIC_RATE_value)
  have r: "periodic_rate default_calculator = 0.011554"
    by (simp add: default_calculator_def init_def PERIODIC_RATE_value)
  show ?thesis
    using compute_rate_factor_value [OF h, of 3]
    by (simp add: r power3_eq_cube eval_nat_numeral)
qed

lemma round_half_even_between:
  assumes "of_int k - 1 / 2 < y" "y < of_int k + 1 / 2"
  shows "round_half_even y = k"
proof -
  have "\<lfloor>y\<rfloor> = k \<or> \<lfloor>y\<rfloor> = k - 1" using assms by linarith
  then show ?thesis
    using assms unfolding round_half_even_def Let_def by (auto; linarith)
qed

lemma py_round_between:
  assumes "of_int k - 1 / 2 < x * 10 ^ n" "x * 10 ^ n < of_int k + 1 / 2"
  shows "py_round x n = of_int k / 10 ^ n"
  by (simp only: py_round_def round_half_even_between [OF assms])


lemma upt_0_3: "[0..<nat 3] = [0, Suc 0, Suc (Suc 0)]"
  by (simp add: eval_nat_numeral upt_rec)

lemma schedule_9000_3:
  "compute_monthly_installments default_calculator 9000 3 =
     Inr (3069.59,
       [\<lparr>installment_no = 1, monthly_installment = 3069.59, interest = 103.99,
          capital = 2965.6, remaining_capital = 6034.4\<rparr>,
        \<lparr>installment_no = 2, monthly_installment = 3069.59, interest = 69.72,
          capital = 2999.87, remaining_capital = 3034.53\<rparr>,
        \<lparr>installment_no = 3, monthly_installment = 3069.59, interest = 35.06,
          capital = 3034.53, remaining_capital = 0\<rparr>])"
proof -
  have r: "periodic_rate default_calculator = 0.011554"
    by (simp add: default_calculator_def init_def PERIODIC_RATE_value)
  have mi: "py_round (129383003393532433 / 379349436864500000 * 9000) 2 = 3069.59"
    using py_round_between [of 306959 "129383003393532433 / 379349436864500000 * 9000" 2]
    by simp
  have c0: "py_round (9000 * 0.011554) 2 = 103.99"
    using py_round_between [of 10399 "9000 * 0.011554" 2] by simp
  have c1: "py_round (3069.59 - 103.99) 2 = 2965.6"
    using py_round_between [of 296560 "3069.59 - 103.99" 2] by simp
  have c2: "py_round (9000 - 2965.6) 2 = 6034.4"
    using py_round_between [of 603440 "9000 - 2965.6" 2] by simp
  have c3: "py_round (6034.4 * 0.011554) 2 = 69.72"
    using py_round_between [of 6972 "6034.4 * 0.011554" 2] by simp
  have c4: "py_round (3069.59 - 69.72) 2 = 2999.87"
    using py_round_between [of 299987 "3069.59 - 69.72" 2] by simp
  have c5: "py_round (6034.4 - 2999.87) 2 = 3034.53"
    using py_round_between [of 303453 "6034.4 - 2999.87" 2] by simp
  have c6: "py_round (3034.53 * 0.011554) 2 = 35.06"
    using py_round_between [of 3506 "3034.53 * 0.011554" 2] by simp
  have c7: "py_round (3069.59 - 35.06) 2 = 3034.53"
    using py_round_between [of 303453 "3069.59 - 35.06" 2] by simp
  have c8: "py_round (3034.53 - 3034.53) 2 = 0"
    using py_round_between [of 0 "3034.53 - 3034.53" 2] by simp
  have b0: "spec_balance 0.011554 3069.59 9000 0 = 9000"
    by simp
  have b1: "spec_balance 0.011554 3069.59 9000 (Suc 0) = 6034.4"
    by (simp only: spec_balance.simps Let_def c0 c1 c2)
  have b2: "spec_balance 0.011554 3069.59 9000 (Suc (Suc 0)) = 3034.53"
    by (simp only: spec_balance.simps(2) [of _ _ _ "Suc 0"] b1 Let_def c3 c4 c5)
  have r0: "spec_row 0.011554 3069.59 9000 0 =
      \<lparr>installment_no = 1, monthly_installment = 3069.59, interest = 103.99,
          capital = 2965.6, remaining_capital = 6034.4\<rparr>"
    by (simp only: spec_row_def b0 Let_def c0 c1 c2) simp
  have r1: "spec_row 0.011554 3069.59 9000 (Suc 0) =
      \<lparr>installment_no = 2, monthly_installment = 3069.59, interest = 69.72,
          capital = 2999.87, remaining_capital = 3034.53\<rparr>"
    by (simp only: spec_row_def b1 Let_def c3 c4 c5) simp
  have r2: "spec_row 0.011554 3069.59 9000 (Suc (Suc 0)) =
      \<lparr>installment_no = 3, monthly_installment = 3069.59, interest = 35.06,
          capital = 3034.53, remaining_capital = 0\<rparr>"
    by (simp only: spec_row_def b2 Let_def c6 c7 c8) simp
  show ?thesis
    by (simp only: compute_monthly_installments_rows [OF default_rate_factor_3] r mi upt_0_3
        list.map r0 r1 r2)
qed


subsection \<open>Rows\<close>

lemma spec_row_fields:
  "monthly_installment (spec_row r mi a k) = mi"
  "interest (spec_row r mi a k) = py_round (spec_balance r mi a k * r) 2"
  "capital (spec_row r mi a k) = py_round (mi - py_round (spec_balance r mi a k * r) 2) 2"
  "remaining_capital (spec_row r mi a k) = max 0 (spec_balance r mi a (Suc k))"
  by (simp_all add: spec_row_def Let_def)

lemma spec_row_capital:
  assumes "on_grid 2 mi"
  shows "capital (spec_row r mi a k) = mi - interest (spec_row r mi a k)"
proof -
  have "on_grid 2 (mi - py_round (spec_balance r mi a k * r) 2)"
    using assms py_round_on_grid by (rule on_grid_diff)
  then show ?thesis
    by (simp only: spec_row_fields py_round_id)
qed

lemma spec_row_invariant:
  assumes "on_grid 2 mi"
  shows "monthly_installment (spec_row r mi a k) = mi \<and>
         monthly_installment (spec_row r mi a k)
           = interest (spec_row r mi a k) + capital (spec_row r mi a k) \<and>
         0 \<le> remaining_capital (spec_row r mi a k)"
  by (simp add: spec_row_capital [OF assms]) (simp add: spec_row_fields)



section \<open>The schedule repays the financed amount\<close>

lemma spec_balance_on_grid:
  assumes "on_grid 2 a"
  shows "on_grid 2 (spec_balance r mi a k)"
  using assms by (cases k) (simp_all add: Let_def py_round_on_grid)

lemma spec_balance_Suc:
  assumes "on_grid 2 a" "on_grid 2 mi"
  shows "spec_balance r mi a (Suc k)
           = spec_balance r mi a k - (mi - py_round (spec_balance r mi a k * r) 2)"
proof -
  let ?b = "spec_balance r mi a k"
  have c: "on_grid 2 (mi - py_round (?b * r) 2)"
    using assms(2) py_round_on_grid by (rule on_grid_diff)
  have "on_grid 2 (?b - (mi - py_round (?b * r) 2))"
    using spec_balance_on_grid [OF assms(1)] c by (rule on_grid_diff)
  then show ?thesis
    by (simp only: spec_balance.simps Let_def py_round_id [OF c] py_round_id)
qed

lemma spec_row_capital_balance:
  assumes "on_grid 2 a" "on_grid 2 mi"
  shows "capital (spec_row r mi a k) = spec_balance r mi a k - spec_balance r mi a (Suc k)"
proof -
  have "on_grid 2 (mi - py_round (spec_balance r mi a k * r) 2)"
    using assms(2) py_round_on_grid by (rule on_grid_diff)
  then have "capital (spec_row r mi a k) = mi - py_round (spec_balance r mi a k * r) 2"
    by (simp only: spec_row_fields py_round_id)
  then show ?thesis
    by (simp only: spec_balance_Suc [OF assms])
qed

lemma capital_sum:
  assumes "on_grid 2 a" "on_grid 2 mi"
  shows "sum_list (map (\<lambda>k. capital (spec_row r mi a k)) [0..<n]) = a - spec_balance r mi a n"
proof (induction n)
  case 0
  show ?case by simp
next
  case (Suc n)
  have tel: "(x - y) + (y - z) = x - z" for x y z :: real
    by simp
  have "sum_list (map (\<lambda>k. capital (spec_row r mi a k)) [0..<Suc n])
      = sum_list (map (\<lambda>k. capital (spec_row r mi a k)) [0..<n]) + capital (spec_row r mi a n)"
    by simp
  also have "\<dots> = (a - spec_balance r mi a n) + capital (spec_row r mi a n)"
    by (simp only: Suc.IH)
  also have "\<dots> = (a - spec_balance r mi a n)
      + (spec_balance r mi a n - spec_balance r mi a (Suc n))"
    by (simp only: spec_row_capital_balance [OF assms])
  also have "\<dots> = a - spec_balance r mi a (Suc n)"
    by (rule tel)
  finally show ?case .
qed

lemma geometric_shift:
  fixes q :: real
  shows "(\<Sum>j<Suc k. q ^ j) = 1 + q * (\<Sum>j<k. q ^ j)"
  by (simp only: sum.lessThan_Suc_shift sum_distrib_left power_Suc power_0)

lemma balance_drift:
  fixes r :: real
  assumes "on_grid 2 a" "on_grid 2 mi" "\<bar>mi - P\<bar> \<le> 1 / 200" "0 < r"
  shows "\<bar>spec_balance r mi a k - (a * (1 + r) ^ k - P * (\<Sum>j<k. (1 + r) ^ j))\<bar>
           \<le> (\<Sum>j<k. (1 + r) ^ j) / 100"
proof (induction k)
  case 0
  show ?case by simp
next
  case (Suc k)
  define q where "q = 1 + r"
  define S where "S = (\<Sum>j<k. q ^ j)"
  define b where "b = spec_balance r mi a k"
  define e where "e = py_round (b * r) 2 - b * r"
  define d where "d = b - (a * q ^ k - P * S)"
  have q: "0 < q" using assms(4) by (simp add: q_def)
  have S1: "(\<Sum>j<Suc k. q ^ j) = 1 + q * S"
    unfolding S_def by (rule geometric_shift)
  have e: "\<bar>e\<bar> \<le> 1 / 200"
    unfolding e_def using py_round_error [of "b * r" 2] by simp
  have d: "\<bar>d\<bar> \<le> S / 100"
    using Suc.IH by (simp only: d_def b_def q_def S_def)
  have b': "spec_balance r mi a (Suc k) = b - (mi - py_round (b * r) 2)"
    unfolding b_def using assms(1,2) by (rule spec_balance_Suc)
  have eq: "spec_balance r mi a (Suc k) - (a * q ^ Suc k - P * (1 + q * S))
        = q * d + e - (mi - P)"
    unfolding b' d_def e_def q_def by (simp add: algebra_simps)
  have "\<bar>q * d + e - (mi - P)\<bar> \<le> \<bar>q * d\<bar> + \<bar>e\<bar> + \<bar>mi - P\<bar>"
    by linarith
  also have "\<bar>q * d\<bar> = q * \<bar>d\<bar>"
    using q by (simp add: abs_mult)
  also have "q * \<bar>d\<bar> + \<bar>e\<bar> + \<bar>mi - P\<bar> \<le> q * (S / 100) + 1 / 200 + 1 / 200"
    using e assms(3) mult_left_mono [OF d, of q] q by linarith
  also have "\<dots> = (1 + q * S) / 100"
    by (simp add: field_simps)
  finally have "\<bar>spec_balance r mi a (Suc k) - (a * q ^ Suc k - P * (1 + q * S))\<bar>
      \<le> (1 + q * S) / 100"
    by (simp only: eq)
  then show ?case
    unfolding S1 [symmetric] unfolding q_def .
qed

lemma exact_balance_zero:
  fixes r :: real
  assumes "0 < r" "0 < n"
  shows "a * (1 + r) ^ n - (r * (1 + r) ^ n / ((1 + r) ^ n - 1)) * a * (\<Sum>j<n. (1 + r) ^ j) = 0"
proof -
  define q where "q = (1 + r) ^ n"
  have q: "1 < q" unfolding q_def using assms by (intro one_less_power) simp_all
  have "(\<Sum>j<n. (1 + r) ^ j) = ((1 + r) ^ n - 1) / ((1 + r) - 1)"
    using assms(1) by (intro geometric_sum) simp
  then have S: "(\<Sum>j<n. (1 + r) ^ j) = (q - 1) / r"
    by (simp add: q_def)
  show ?thesis
    unfolding S q_def [symmetric] using q assms(1) by (simp add: field_simps)
qed


lemma geometric_bound_small:
  fixes r :: real
  assumes "0 < r" "r \<le> 0.02" "n \<le> 9"
  shows "(\<Sum>j<n. (1 + r) ^ j) / 100 \<le> 0.1"
proof -
  have "(\<Sum>j<n. (1 + r) ^ j) \<le> (\<Sum>j<9. (1 + r) ^ j)"
    using assms(1,3) by (intro sum_mono2) auto
  also have "\<dots> \<le> (\<Sum>j<9. (1.02::real) ^ j)"
    using assms(1,2) by (intro sum_mono power_mono) auto
  also have "\<dots> = (1.02 ^ 9 - 1) / (1.02 - 1)"
    by (intro geometric_sum) simp
  also have "\<dots> \<le> 10"
    by (simp add: power_divide)
  finally show ?thesis by simp
qed



section \<open>Every arithmetic: the three steps of the limit and the rows of the schedule\<close>

text \<open>In the exact arithmetic the second model is the first.\<close>

lemma exact_arith_simps:
  "f_lit exact_arith x = x"
  "f_add exact_arith = (+)"
  "f_sub exact_arith = (-)"
  "f_mul exact_arith = (*)"
  "f_truediv exact_arith = py_truediv"
  "f_pow exact_arith = py_pow"
  "f_round exact_arith = py_round"
  by (simp_all add: exact_arith_def)

lemma compute_rate_factor_exact: "compute_rate_factor_in exact_arith = compute_rate_factor"
  by (intro ext) (simp add: compute_rate_factor_in_def compute_rate_factor_def exact_arith_simps)

lemma compute_max_installment_exact:
  "compute_max_installment_in exact_arith = compute_max_installment"
  by (intro ext)
     (simp add: compute_max_installment_in_def compute_max_installment_def exact_arith_simps
        compute_rate_factor_exact)

lemma present_value_exact: "present_value_in exact_arith = present_value"
  by (intro ext) (simp add: present_value_in_def present_value_def exact_arith_simps)

lemma compute_limit_exact: "compute_limit_in exact_arith = compute_limit"
  by (intro ext)
     (simp add: compute_limit_in_def compute_limit_def present_value_exact exact_arith_simps
        compute_max_installment_exact)

lemma installment_loop_exact:
  "installment_loop_in exact_arith self mi is a rows = installment_loop self mi is a rows"
  by (induction "is" arbitrary: a rows) (simp_all add: exact_arith_simps Let_def)

lemma compute_monthly_installments_exact:
  "compute_monthly_installments_in exact_arith = compute_monthly_installments"
  by (intro ext)
     (simp add: compute_monthly_installments_in_def compute_monthly_installments_def
        exact_arith_simps compute_rate_factor_exact installment_loop_exact)

lemma spec_balance_exact: "spec_balance_in exact_arith r mi a k = spec_balance r mi a k"
  by (induction k) (simp_all add: exact_arith_simps Let_def)

lemma spec_row_exact: "spec_row_in exact_arith r mi a k = spec_row r mi a k"
  by (simp add: spec_row_in_def spec_row_def spec_balance_exact exact_arith_simps)




subsection \<open>The schedule\<close>

lemma spec_balance_in_shift:
  "spec_balance_in ar r mi (spec_balance_in ar r mi a (Suc 0)) k
     = spec_balance_in ar r mi a (Suc k)"
  by (induction k) (simp_all add: Let_def)

lemma spec_row_in_shift:
  "spec_row_in ar r mi (spec_balance_in ar r mi a (Suc 0)) k
     = (spec_row_in ar r mi a (Suc k))\<lparr>installment_no := int k + 1\<rparr>"
  unfolding spec_row_in_def Let_def
  by (simp only: spec_balance_in_shift) simp

lemma installment_loop_in_rows:
  "nat (j - i + 1) = n \<Longrightarrow>
   installment_loop_in ar self mi [i..j] a rows =
     (spec_balance_in ar (periodic_rate self) mi a n,
      rows @ map (\<lambda>k. (spec_row_in ar (periodic_rate self) mi a k)
                         \<lparr>installment_no := i + int k\<rparr>) [0..<n])"
proof (induction n arbitrary: i a rows)
  case 0
  then have "j < i" by simp
  then show ?case by simp
next
  case (Suc n)
  let ?r = "periodic_rate self"
  let ?a' = "spec_balance_in ar ?r mi a (Suc 0)"
  from Suc.prems have le: "i \<le> j" and n: "nat (j - (i + 1) + 1) = n" by simp_all
  have up: "[i..j] = i # [i + 1..j]" using le by (rule upto_rec1)
  have row0: "\<lparr>installment_no = i, monthly_installment = mi,
                interest = f_round ar (f_mul ar a ?r) 2,
                capital = f_round ar (f_sub ar mi (f_round ar (f_mul ar a ?r) 2)) 2,
                remaining_capital = max (f_lit ar 0) ?a'\<rparr>
              = (spec_row_in ar ?r mi a 0)\<lparr>installment_no := i + int 0\<rparr>"
    by (simp add: spec_row_in_def Let_def)
  have step: "installment_loop_in ar self mi [i..j] a rows =
      installment_loop_in ar self mi [i + 1..j] ?a'
        (rows @ [(spec_row_in ar ?r mi a 0)\<lparr>installment_no := i + int 0\<rparr>])"
    by (simp only: up installment_loop_in.simps Let_def row0 [symmetric] spec_balance_in.simps)
  have pt: "(spec_row_in ar ?r mi ?a' k)\<lparr>installment_no := i + 1 + int k\<rparr>
      = (spec_row_in ar ?r mi a (Suc k))\<lparr>installment_no := i + int (Suc k)\<rparr>" for k
    by (simp only: spec_row_in_shift) (simp add: add.commute add.left_commute)
  have rows': "map (\<lambda>k. (spec_row_in ar ?r mi ?a' k)\<lparr>installment_no := i + 1 + int k\<rparr>) [0..<n]
      = map (\<lambda>k. (spec_row_in ar ?r mi a (Suc k))\<lparr>installment_no := i + int (Suc k)\<rparr>) [0..<n]"
    by (simp only: pt)
  show ?case
    by (simp only: step Suc.IH [OF n] spec_balance_in_shift rows' upt_Suc_map [where n = n]
        append_assoc append_Cons append_Nil)
qed

lemma spec_row_in_number:
  "(spec_row_in ar r mi a k)\<lparr>installment_no := 1 + int k\<rparr> = spec_row_in ar r mi a k"
  by (simp add: spec_row_in_def Let_def)



section \<open>The range of binary64\<close>

subsection \<open>Where the power overflows\<close>

lemma pow_lower_step:
  fixes a l l' :: real
  assumes "0 \<le> l" "0 \<le> a" "l * 2 ^ e \<le> a ^ m" "l' * 2 ^ s \<le> l * l * a ^ b"
  shows "l' * 2 ^ (2 * e + s) \<le> a ^ (2 * m + b)"
proof -
  have "l' * 2 ^ (2 * e + s) = (l' * 2 ^ s) * (2 ^ e * 2 ^ e)"
    by (simp add: power_add mult_2)
  also have "\<dots> \<le> (l * l * a ^ b) * (2 ^ e * 2 ^ e)"
    using assms(4) by (intro mult_right_mono) simp_all
  also have "\<dots> = (l * 2 ^ e) * (l * 2 ^ e) * a ^ b"
    by (simp add: mult_ac)
  also have "\<dots> \<le> a ^ m * a ^ m * a ^ b"
    using assms(1,2,3) by (intro mult_right_mono mult_mono) simp_all
  also have "\<dots> = a ^ (2 * m + b)"
    by (simp add: power_add mult_2)
  finally show ?thesis .
qed

lemma pow_upper_step:
  fixes a u u' :: real
  assumes "0 \<le> a" "a ^ m \<le> u * 2 ^ e" "u * u * a ^ b \<le> u' * 2 ^ s"
  shows "a ^ (2 * m + b) \<le> u' * 2 ^ (2 * e + s)"
proof -
  have u: "0 \<le> u * 2 ^ e"
    using assms(1,2) by (meson order_trans zero_le_power)
  have "a ^ (2 * m + b) = a ^ m * a ^ m * a ^ b"
    by (simp add: power_add mult_2)
  also have "\<dots> \<le> (u * 2 ^ e) * (u * 2 ^ e) * a ^ b"
    using assms(1,2) u by (intro mult_right_mono mult_mono) simp_all
  also have "\<dots> = (u * u * a ^ b) * (2 ^ e * 2 ^ e)"
    by (simp add: mult_ac)
  also have "\<dots> \<le> (u' * 2 ^ s) * (2 ^ e * 2 ^ e)"
    using assms(3) by (intro mult_right_mono) simp_all
  also have "\<dots> = u' * 2 ^ (2 * e + s)"
    by (simp add: power_add mult_2)
  finally show ?thesis .
qed

lemma rate_power_bounds:
  "1.977484499325035481965001 * 2 ^ 1023 \<le> (1.011554::real) ^ 61785" "(1.011554::real) ^ 61785 \<le> 1.977484499325035481990814 * 2 ^ 1023"
proof -
  have a0: "(0::real) \<le> 1.011554" by simp
  have l0: "1.011554 * 2 ^ 0 \<le> (1.011554::real) ^ 1" by simp
  have u0: "(1.011554::real) ^ 1 \<le> 1.011554 * 2 ^ 0" by simp
  have e1: "2 * 0 + 0 = (0::nat)" by simp
  have m1: "2 * 1 + 1 = (3::nat)" by simp
  have p1: "(0::real) \<le> 1.011554" by simp
  have a1: "1.035064027148259464 * 2 ^ 0 \<le> 1.011554 * 1.011554 * (1.011554::real) ^ 1" by simp
  have b1: "1.011554 * 1.011554 * (1.011554::real) ^ 1 \<le> 1.035064027148259464 * 2 ^ 0" by simp
  note l1 = pow_lower_step [OF p1 a0 l0 a1, unfolded e1 m1]
  note u1 = pow_upper_step [OF a0 u0 b1, unfolded e1 m1]
  have e2: "2 * 0 + 0 = (0::nat)" by simp
  have m2: "2 * 3 + 1 = (7::nat)" by simp
  have p2: "(0::real) \<le> 1.035064027148259464" by simp
  have a2: "1.083736005316957096105111 * 2 ^ 0 \<le> 1.035064027148259464 * 1.035064027148259464 * (1.011554::real) ^ 1" by simp
  have b2: "1.035064027148259464 * 1.035064027148259464 * (1.011554::real) ^ 1 \<le> 1.083736005316957096105112 * 2 ^ 0" by simp
  note l2 = pow_lower_step [OF p2 a0 l1 a2, unfolded e2 m2]
  note u2 = pow_upper_step [OF a0 u1 b2, unfolded e2 m2]
  have e3: "2 * 0 + 0 = (0::nat)" by simp
  have m3: "2 * 7 + 1 = (15::nat)" by simp
  have p3: "(0::real) \<le> 1.083736005316957096105111" by simp
  have a3: "1.188053714227767648566481 * 2 ^ 0 \<le> 1.083736005316957096105111 * 1.083736005316957096105111 * (1.011554::real) ^ 1" by simp
  have b3: "1.083736005316957096105112 * 1.083736005316957096105112 * (1.011554::real) ^ 1 \<le> 1.188053714227767648566484 * 2 ^ 0" by simp
  note l3 = pow_lower_step [OF p3 a0 l2 a3, unfolded e3 m3]
  note u3 = pow_upper_step [OF a0 u2 b3, unfolded e3 m3]
  have e4: "2 * 0 + 0 = (0::nat)" by simp
  have m4: "2 * 15 + 0 = (30::nat)" by simp
  have p4: "(0::real) \<le> 1.188053714227767648566481" by simp
  have a4: "1.411471627890394197668787 * 2 ^ 0 \<le> 1.188053714227767648566481 * 1.188053714227767648566481 * (1.011554::real) ^ 0" by simp
  have b4: "1.188053714227767648566484 * 1.188053714227767648566484 * (1.011554::real) ^ 0 \<le> 1.411471627890394197668795 * 2 ^ 0" by simp
  note l4 = pow_lower_step [OF p4 a0 l3 a4, unfolded e4 m4]
  note u4 = pow_upper_step [OF a0 u3 b4, unfolded e4 m4]
  have e5: "2 * 0 + 0 = (0::nat)" by simp
  have m5: "2 * 30 + 0 = (60::nat)" by simp
  have p5: "(0::real) \<le> 1.411471627890394197668787" by simp
  have a5: "1.992252156339559423502646 * 2 ^ 0 \<le> 1.411471627890394197668787 * 1.411471627890394197668787 * (1.011554::real) ^ 0" by simp
  have b5: "1.411471627890394197668795 * 1.411471627890394197668795 * (1.011554::real) ^ 0 \<le> 1.99225215633955942350267 * 2 ^ 0" by simp
  note l5 = pow_lower_step [OF p5 a0 l4 a5, unfolded e5 m5]
  note u5 = pow_upper_step [OF a0 u4 b5, unfolded e5 m5]
  have e6: "2 * 0 + 1 = (1::nat)" by simp
  have m6: "2 * 60 + 0 = (120::nat)" by simp
  have p6: "(0::real) \<le> 1.992252156339559423502646" by simp
  have a6: "1.984534327219812161620913 * 2 ^ 1 \<le> 1.992252156339559423502646 * 1.992252156339559423502646 * (1.011554::real) ^ 0" by simp
  have b6: "1.99225215633955942350267 * 1.99225215633955942350267 * (1.011554::real) ^ 0 \<le> 1.984534327219812161620962 * 2 ^ 1" by simp
  note l6 = pow_lower_step [OF p6 a0 l5 a6, unfolded e6 m6]
  note u6 = pow_upper_step [OF a0 u5 b6, unfolded e6 m6]
  have e7: "2 * 1 + 1 = (3::nat)" by simp
  have m7: "2 * 120 + 1 = (241::nat)" by simp
  have p7: "(0::real) \<le> 1.984534327219812161620913" by simp
  have a7: "1.991940248973790223964807 * 2 ^ 1 \<le> 1.984534327219812161620913 * 1.984534327219812161620913 * (1.011554::real) ^ 1" by simp
  have b7: "1.984534327219812161620962 * 1.984534327219812161620962 * (1.011554::real) ^ 1 \<le> 1.991940248973790223964907 * 2 ^ 1" by simp
  note l7 = pow_lower_step [OF p7 a0 l6 a7, unfolded e7 m7]
  note u7 = pow_upper_step [OF a0 u6 b7, unfolded e7 m7]
  have e8: "2 * 3 + 1 = (7::nat)" by simp
  have m8: "2 * 241 + 0 = (482::nat)" by simp
  have p8: "(0::real) \<le> 1.991940248973790223964807" by simp
  have a8: "1.983912977740882692698566 * 2 ^ 1 \<le> 1.991940248973790223964807 * 1.991940248973790223964807 * (1.011554::real) ^ 0" by simp
  have b8: "1.991940248973790223964907 * 1.991940248973790223964907 * (1.011554::real) ^ 0 \<le> 1.983912977740882692698767 * 2 ^ 1" by simp
  note l8 = pow_lower_step [OF p8 a0 l7 a8, unfolded e8 m8]
  note u8 = pow_upper_step [OF a0 u7 b8, unfolded e8 m8]
  have e9: "2 * 7 + 1 = (15::nat)" by simp
  have m9: "2 * 482 + 1 = (965::nat)" by simp
  have p9: "(0::real) \<le> 1.983912977740882692698566" by simp
  have a9: "1.990693107757015770661136 * 2 ^ 1 \<le> 1.983912977740882692698566 * 1.983912977740882692698566 * (1.011554::real) ^ 1" by simp
  have b9: "1.983912977740882692698767 * 1.983912977740882692698767 * (1.011554::real) ^ 1 \<le> 1.990693107757015770661541 * 2 ^ 1" by simp
  note l9 = pow_lower_step [OF p9 a0 l8 a9, unfolded e9 m9]
  note u9 = pow_upper_step [OF a0 u8 b9, unfolded e9 m9]
  have e10: "2 * 15 + 1 = (31::nat)" by simp
  have m10: "2 * 965 + 0 = (1930::nat)" by simp
  have p10: "(0::real) \<le> 1.990693107757015770661136" by simp
  have a10: "1.981429524635642801331952 * 2 ^ 1 \<le> 1.990693107757015770661136 * 1.990693107757015770661136 * (1.011554::real) ^ 0" by simp
  have b10: "1.990693107757015770661541 * 1.990693107757015770661541 * (1.011554::real) ^ 0 \<le> 1.981429524635642801332759 * 2 ^ 1" by simp
  note l10 = pow_lower_step [OF p10 a0 l9 a10, unfolded e10 m10]
  note u10 = pow_upper_step [OF a0 u9 b10, unfolded e10 m10]
  have e11: "2 * 31 + 1 = (63::nat)" by simp
  have m11: "2 * 1930 + 1 = (3861::nat)" by simp
  have p11: "(0::real) \<le> 1.981429524635642801331952" by simp
  have a11: "1.985712346275176861940107 * 2 ^ 1 \<le> 1.981429524635642801331952 * 1.981429524635642801331952 * (1.011554::real) ^ 1" by simp
  have b11: "1.981429524635642801332759 * 1.981429524635642801332759 * (1.011554::real) ^ 1 \<le> 1.985712346275176861941726 * 2 ^ 1" by simp
  note l11 = pow_lower_step [OF p11 a0 l10 a11, unfolded e11 m11]
  note u11 = pow_upper_step [OF a0 u10 b11, unfolded e11 m11]
  have e12: "2 * 63 + 1 = (127::nat)" by simp
  have m12: "2 * 3861 + 1 = (7723::nat)" by simp
  have p12: "(0::real) \<le> 1.985712346275176861940107" by simp
  have a12: "1.994305781272292581585623 * 2 ^ 1 \<le> 1.985712346275176861940107 * 1.985712346275176861940107 * (1.011554::real) ^ 1" by simp
  have b12: "1.985712346275176861941726 * 1.985712346275176861941726 * (1.011554::real) ^ 1 \<le> 1.994305781272292581588876 * 2 ^ 1" by simp
  note l12 = pow_lower_step [OF p12 a0 l11 a12, unfolded e12 m12]
  note u12 = pow_upper_step [OF a0 u11 b12, unfolded e12 m12]
  have e13: "2 * 127 + 1 = (255::nat)" by simp
  have m13: "2 * 7723 + 0 = (15446::nat)" by simp
  have p13: "(0::real) \<le> 1.994305781272292581585623" by simp
  have a13: "1.988627774608044650116693 * 2 ^ 1 \<le> 1.994305781272292581585623 * 1.994305781272292581585623 * (1.011554::real) ^ 0" by simp
  have b13: "1.994305781272292581588876 * 1.994305781272292581588876 * (1.011554::real) ^ 0 \<le> 1.988627774608044650123182 * 2 ^ 1" by simp
  note l13 = pow_lower_step [OF p13 a0 l12 a13, unfolded e13 m13]
  note u13 = pow_upper_step [OF a0 u12 b13, unfolded e13 m13]
  have e14: "2 * 255 + 1 = (511::nat)" by simp
  have m14: "2 * 15446 + 0 = (30892::nat)" by simp
  have p14: "(0::real) \<le> 1.988627774608044650116693" by simp
  have a14: "1.977320212971272017239027 * 2 ^ 1 \<le> 1.988627774608044650116693 * 1.988627774608044650116693 * (1.011554::real) ^ 0" by simp
  have b14: "1.988627774608044650123182 * 1.988627774608044650123182 * (1.011554::real) ^ 0 \<le> 1.977320212971272017251932 * 2 ^ 1" by simp
  note l14 = pow_lower_step [OF p14 a0 l13 a14, unfolded e14 m14]
  note u14 = pow_upper_step [OF a0 u13 b14, unfolded e14 m14]
  have e15: "2 * 511 + 1 = (1023::nat)" by simp
  have m15: "2 * 30892 + 1 = (61785::nat)" by simp
  have p15: "(0::real) \<le> 1.977320212971272017239027" by simp
  have a15: "1.977484499325035481965001 * 2 ^ 1 \<le> 1.977320212971272017239027 * 1.977320212971272017239027 * (1.011554::real) ^ 1" by simp
  have b15: "1.977320212971272017251932 * 1.977320212971272017251932 * (1.011554::real) ^ 1 \<le> 1.977484499325035481990814 * 2 ^ 1" by simp
  note l15 = pow_lower_step [OF p15 a0 l14 a15, unfolded e15 m15]
  note u15 = pow_upper_step [OF a0 u14 b15, unfolded e15 m15]
  show "1.977484499325035481965001 * 2 ^ 1023 \<le> (1.011554::real) ^ 61785" by (rule l15)
  show "(1.011554::real) ^ 61785 \<le> 1.977484499325035481990814 * 2 ^ 1023" by (rule u15)
qed

lemma binary64_overflow_split: "binary64_overflow = (2 ^ 54 - 1) * 2 ^ 970"
proof -
  have "(1024::nat) = 54 + 970" by simp
  then have "(2::real) ^ 1024 = 2 ^ 54 * 2 ^ 970"
    by (simp only: power_add)
  then show ?thesis
    unfolding binary64_overflow_def by (simp only: left_diff_distrib mult_1)
qed

lemma two_1023_split: "(2::real) ^ 1023 = 2 ^ 53 * 2 ^ 970"
proof -
  have "(1023::nat) = 53 + 970" by simp
  then show ?thesis by (simp only: power_add)
qed

lemma no_overflow_61785: "(1.011554::real) ^ 61785 < binary64_overflow"
proof -
  have "(1.977484499325035481990814::real) * 2 ^ 53 < 2 ^ 54 - 1" by simp
  then have "1.977484499325035481990814 * 2 ^ 53 * 2 ^ 970 < (2 ^ 54 - 1) * (2::real) ^ 970"
    by (intro mult_strict_right_mono) simp_all
  then have "1.977484499325035481990814 * 2 ^ 1023 < binary64_overflow"
    by (simp only: binary64_overflow_split two_1023_split mult.assoc)
  with rate_power_bounds(2) show ?thesis by (rule le_less_trans)
qed

lemma overflow_61786: "binary64_overflow \<le> (1.011554::real) ^ 61786"
proof -
  have "(2 ^ 54 - 1 :: real) \<le> 1.977484499325035481965001 * 2 ^ 53 * 1.011554" by simp
  then have "(2 ^ 54 - 1) * (2::real) ^ 970 \<le> 1.977484499325035481965001 * 2 ^ 53 * 1.011554 * 2 ^ 970"
    by (intro mult_right_mono) simp_all
  also have "\<dots> = 1.977484499325035481965001 * 2 ^ 1023 * 1.011554"
    by (simp only: two_1023_split) (simp only: mult_ac)
  also have "\<dots> \<le> 1.011554 ^ 61785 * 1.011554"
    using rate_power_bounds(1) by (intro mult_right_mono) simp_all
  also have "\<dots> = 1.011554 ^ Suc 61785"
    by (simp only: power_Suc2)
  also have "Suc 61785 = 61786" by simp
  finally show ?thesis by (simp only: binary64_overflow_split)
qed


subsection \<open>The calculator within the range\<close>

lemma ranged_arith_simps:
  "f_lit ranged_arith x = x"
  "f_add ranged_arith = (+)"
  "f_sub ranged_arith = (-)"
  "f_mul ranged_arith = (*)"
  "f_truediv ranged_arith = py_truediv"
  "f_pow ranged_arith = py_pow_binary64"
  "f_round ranged_arith = py_round"
  by (simp_all add: ranged_arith_def exact_arith_def)

lemma default_growth: "1 + periodic_rate default_calculator = 1.011554"
  by (simp add: default_calculator_def init_def PERIODIC_RATE_value)

lemma binary64_overflow_gt_one: "1 < binary64_overflow"
proof -
  have "(1::real) < (2 ^ 54 - 1) * 1" by simp
  also have "\<dots> \<le> (2 ^ 54 - 1) * (2::real) ^ 970"
    by (intro mult_left_mono one_le_power) simp_all
  finally show ?thesis by (simp only: binary64_overflow_split)
qed

lemma py_pow_binary64_in_range:
  assumes "1 \<le> n" "n \<le> 61785"
  shows "py_pow_binary64 1.011554 n = py_pow 1.011554 n"
proof -
  have "nat n \<le> 61785" using assms(2) by simp
  then have "(1.011554::real) ^ nat n \<le> 1.011554 ^ 61785"
    by (intro power_increasing) simp_all
  then have "(1.011554::real) ^ nat n < binary64_overflow"
    using no_overflow_61785 by (rule le_less_trans)
  moreover have "\<bar>(1.011554::real) ^ nat n\<bar> = 1.011554 ^ nat n"
    by (intro abs_of_nonneg zero_le_power) simp
  ultimately show ?thesis
    using assms(1) by (simp add: py_pow_binary64_def py_pow_def)
qed

lemma py_pow_binary64_overflow:
  assumes "61786 \<le> n"
  shows "py_pow_binary64 1.011554 n = Inl OverflowError"
proof -
  have "61786 \<le> nat n" using assms by simp
  then have "(1.011554::real) ^ 61786 \<le> 1.011554 ^ nat n"
    by (intro power_increasing) simp_all
  with overflow_61786 have "binary64_overflow \<le> (1.011554::real) ^ nat n"
    by (rule order_trans)
  moreover have "\<bar>(1.011554::real) ^ nat n\<bar> = 1.011554 ^ nat n"
    by (intro abs_of_nonneg zero_le_power) simp
  ultimately show ?thesis
    using assms by (simp add: py_pow_binary64_def py_pow_def)
qed

lemma py_pow_binary64_negative:
  assumes "1 \<le> n"
  shows "py_pow_binary64 1.011554 (- n) = py_pow 1.011554 (- n)"
proof -
  have "(1::real) \<le> 1.011554 ^ nat n"
    by (intro one_le_power) simp
  then have "1 / (1.011554::real) ^ nat n \<le> 1"
    by simp
  then have "1 / (1.011554::real) ^ nat n < binary64_overflow"
    using binary64_overflow_gt_one by (rule le_less_trans)
  moreover have "\<bar>1 / (1.011554::real) ^ nat n\<bar> = 1 / 1.011554 ^ nat n"
    by (intro abs_of_nonneg divide_nonneg_nonneg zero_le_power) simp_all
  ultimately show ?thesis
    using assms by (simp add: py_pow_binary64_def py_pow_def)
qed

lemma compute_rate_factor_ranged:
  assumes "1 \<le> n" "n \<le> 61785"
  shows "compute_rate_factor_in ranged_arith default_calculator n
           = compute_rate_factor default_calculator n"
  by (simp only: compute_rate_factor_in_def compute_rate_factor_def ranged_arith_simps
      default_growth py_pow_binary64_in_range [OF assms])

lemma compute_rate_factor_ranged_overflow:
  assumes "61786 \<le> n"
  shows "compute_rate_factor_in ranged_arith default_calculator n = Inl OverflowError"
  by (simp only: compute_rate_factor_in_def ranged_arith_simps default_growth
      py_pow_binary64_overflow [OF assms] bind_err_Inl)

lemma compute_max_installment_in_valid:
  assumes "g \<in> {''A'', ''B'', ''C'', ''D'', ''E''}"
  shows "\<exists>c p. compute_max_installment_in ar self g periods =
           bind_err (compute_rate_factor_in ar self periods)
             (\<lambda>f. Inr (f_mul ar (f_mul ar (f_lit ar c) (f_lit ar p)) f))"
  using assms
proof (elim insertE emptyE)
  assume "g = ''A''"
  then have "compute_max_installment_in ar self g periods =
      bind_err (compute_rate_factor_in ar self periods)
        (\<lambda>f. Inr (f_mul ar (f_mul ar (f_lit ar 30000) (f_lit ar 1)) f))"
    by (simp add: compute_max_installment_in_def PERCENTAGE_BY_CREDIT_SCORE_def MAX_LIMITS_def
        getitem_def)
  then show ?thesis by (intro exI)
next
  assume "g = ''B''"
  then have "compute_max_installment_in ar self g periods =
      bind_err (compute_rate_factor_in ar self periods)
        (\<lambda>f. Inr (f_mul ar (f_mul ar (f_lit ar 20000) (f_lit ar 0.75)) f))"
    by (simp add: compute_max_installment_in_def PERCENTAGE_BY_CREDIT_SCORE_def MAX_LIMITS_def
        getitem_def)
  then show ?thesis by (intro exI)
next
  assume "g = ''C''"
  then have "compute_max_installment_in ar self g periods =
      bind_err (compute_rate_factor_in ar self periods)
        (\<lambda>f. Inr (f_mul ar (f_mul ar (f_lit ar 20000) (f_lit ar 0.5)) f))"
    by (simp add: compute_max_installment_in_def PERCENTAGE_BY_CREDIT_SCORE_def MAX_LIMITS_def
        getitem_def)
  then show ?thesis by (intro exI)
next
  assume "g = ''D''"
  then have "compute_max_installment_in ar self g periods =
      bind_err (compute_rate_factor_in ar self periods)
        (\<lambda>f. Inr (f_mul ar (f_mul ar (f_lit ar 20000) (f_lit ar 0.25)) f))"
    by (simp add: compute_max_installment_in_def PERCENTAGE_BY_CREDIT_SCORE_def MAX_LIMITS_def
        getitem_def)
  then show ?thesis by (intro exI)
next
  assume "g = ''E''"
  then have "compute_max_installment_in ar self g periods =
      bind_err (compute_rate_factor_in ar self periods)
        (\<lambda>f. Inr (f_mul ar (f_mul ar (f_lit ar 20000) (f_lit ar 0.1)) f))"
    by (simp add: compute_max_installment_in_def PERCENTAGE_BY_CREDIT_SCORE_def MAX_LIMITS_def
        getitem_def)
  then show ?thesis by (intro exI)
qed

lemma compute_max_installment_ranged:
  assumes "1 \<le> n" "n \<le> 61785"
  shows "compute_max_installment_in ranged_arith default_calculator g n
           = compute_max_installment default_calculator g n"
  by (simp only: compute_max_installment_in_def compute_max_installment_def ranged_arith_simps
      compute_rate_factor_ranged [OF assms])

lemma compute_max_installment_ranged_overflow:
  assumes "61786 \<le> n" "g \<in> {''A'', ''B'', ''C'', ''D'', ''E''}"
  shows "compute_max_installment_in ranged_arith default_calculator g n = Inl OverflowError"
proof -
  obtain c p where "compute_max_installment_in ranged_arith default_calculator g n =
      bind_err (compute_rate_factor_in ranged_arith default_calculator n)
        (\<lambda>f. Inr (f_mul ranged_arith (f_mul ranged_arith (f_lit ranged_arith c)
                 (f_lit ranged_arith p)) f))"
    using compute_max_installment_in_valid [OF assms(2)] by blast
  then show ?thesis
    by (simp only: compute_rate_factor_ranged_overflow [OF assms(1)] bind_err_Inl)
qed

lemma present_value_ranged:
  assumes "1 \<le> n"
  shows "present_value_in ranged_arith default_calculator x n
           = present_value default_calculator x n"
  by (simp only: present_value_in_def present_value_def ranged_arith_simps default_growth
      py_pow_binary64_negative [OF assms])

lemma compute_limit_ranged:
  assumes "1 \<le> n" "n \<le> 61785"
  shows "compute_limit_in ranged_arith default_calculator g s n
           = compute_limit default_calculator g s n"
  by (simp only: compute_limit_in_def compute_limit_def ranged_arith_simps
      compute_max_installment_ranged [OF assms] present_value_ranged [OF assms(1)])

lemma compute_limit_ranged_overflow:
  assumes "61786 \<le> n" "g \<in> {''A'', ''B'', ''C'', ''D'', ''E''}"
  shows "compute_limit_in ranged_arith default_calculator g s n = Inl OverflowError"
  by (simp add: compute_limit_in_def ranged_arith_simps py_truediv_def Let_def
      compute_max_installment_ranged_overflow [OF assms])

text \<open>
  C7, as the code has it: for each of the five grades, the default calculator's
  \<open>compute_limit\<close> on a zero six-month inflow returns the limit 0 for every
  \<open>periods\<close> from 1 to 61785, and raises the \<open>OverflowError\<close> of \<open>(1 + r) ** periods\<close> from
  \<open>periods = 61786\<close> on.
\<close>

theorem zero_inflow_zero_limit:
  assumes "g \<in> {''A'', ''B'', ''C'', ''D'', ''E''}" "1 \<le> periods"
  shows "compute_limit_in ranged_arith default_calculator g 0 periods
           = (if periods \<le> 61785 then Inr 0 else Inl OverflowError)"
proof (cases "periods \<le> 61785")
  case True
  have h: "0 < periodic_rate default_calculator"
    by (simp add: default_calculator_def init_def PERIODIC_RATE_value)
  have "compute_limit default_calculator g 0 periods = Inr 0"
    using h assms(2,1) by (rule zero_inflow_exact)
  then show ?thesis
    using True by (simp only: compute_limit_ranged [OF assms(2) True] if_True)
next
  case False
  then have o: "61786 \<le> periods" by simp
  show ?thesis
    using False by (simp only: compute_limit_ranged_overflow [OF o assms(1)] if_False)
qed

text \<open>
  C7, at the default calculator, grade A, with 61785 periods, the last count in range.
\<close>

theorem zero_inflow_zero_limit_witness:
  "''A'' \<in> {''A'', ''B'', ''C'', ''D'', ''E''} \<and> (1::int) \<le> 61785 \<and>
   compute_limit_in ranged_arith default_calculator ''A'' 0 61785 = Inr 0"
proof -
  have g: "''A'' \<in> {''A'', ''B'', ''C'', ''D'', ''E''}" by simp
  have n: "(1::int) \<le> 61785" by simp
  have "compute_limit_in ranged_arith default_calculator ''A'' 0 61785 = Inr 0"
    using zero_inflow_zero_limit [OF g n] by simp
  with g n show ?thesis by (intro conjI)
qed

text \<open>
  C7 as stated fails: with 61786 periods the default calculator's \<open>compute_limit\<close> on a
  zero inflow raises \<open>OverflowError\<close>.
\<close>

theorem zero_inflow_overflow:
  "compute_limit_in ranged_arith default_calculator ''A'' 0 61786 = Inl OverflowError"
proof -
  have o: "(61786::int) \<le> 61786" by simp
  have g: "''A'' \<in> {''A'', ''B'', ''C'', ''D'', ''E''}" by simp
  show ?thesis using o g by (rule compute_limit_ranged_overflow)
qed

text \<open>
  C8, as the code has it: the default calculator's \<open>compute_rate_factor\<close> returns a
  positive factor for every \<open>n\<close> from 1 to 61785 and raises the \<open>OverflowError\<close> of
  \<open>(1 + r) ** n\<close> from \<open>n = 61786\<close> on; and over exact arithmetic, for every positive periodic
  rate and every \<open>n \<ge> 1\<close>, the factor is positive and the factor at \<open>n + 1\<close> is not larger
  than the factor at \<open>n\<close>.
\<close>

theorem rate_factor_positive_nonincreasing:
  assumes "1 \<le> n"
  shows "(n \<le> 61785 \<longrightarrow>
            (\<exists>f. compute_rate_factor_in ranged_arith default_calculator n = Inr f \<and> 0 < f)) \<and>
         (61786 \<le> n \<longrightarrow>
            compute_rate_factor_in ranged_arith default_calculator n = Inl OverflowError) \<and>
         (0 < periodic_rate self \<longrightarrow>
            (\<exists>f g. compute_rate_factor_in exact_arith self n = Inr f \<and>
                   compute_rate_factor_in exact_arith self (n + 1) = Inr g \<and>
                   0 < f \<and> 0 < g \<and> g \<le> f))"
proof (intro conjI impI)
  assume le: "n \<le> 61785"
  have h: "0 < periodic_rate default_calculator"
    by (simp add: default_calculator_def init_def PERIODIC_RATE_value)
  obtain f g where "compute_rate_factor default_calculator n = Inr f" "0 < f"
    using rate_factor_exact_nonincreasing [OF h assms] by blast
  then show "\<exists>f. compute_rate_factor_in ranged_arith default_calculator n = Inr f \<and> 0 < f"
    by (simp only: compute_rate_factor_ranged [OF assms le]) blast
next
  assume "61786 \<le> n"
  then show "compute_rate_factor_in ranged_arith default_calculator n = Inl OverflowError"
    by (rule compute_rate_factor_ranged_overflow)
next
  assume "0 < periodic_rate self"
  then show "\<exists>f g. compute_rate_factor_in exact_arith self n = Inr f \<and>
                   compute_rate_factor_in exact_arith self (n + 1) = Inr g \<and>
                   0 < f \<and> 0 < g \<and> g \<le> f"
    using assms by (simp only: compute_rate_factor_exact) (rule rate_factor_exact_nonincreasing)
qed

text \<open>
  C8, at the default calculator with three and four periods.
\<close>

theorem rate_factor_positive_nonincreasing_witness:
  "(1::int) \<le> 3 \<and>
   (\<exists>f. compute_rate_factor_in ranged_arith default_calculator 3 = Inr f \<and> 0 < f) \<and>
   (\<exists>f g. compute_rate_factor_in exact_arith default_calculator 3 = Inr f \<and>
          compute_rate_factor_in exact_arith default_calculator (3 + 1) = Inr g \<and>
          0 < f \<and> 0 < g \<and> g \<le> f)"
proof -
  have h: "0 < periodic_rate default_calculator"
    by (simp add: default_calculator_def init_def PERIODIC_RATE_value)
  have n: "(1::int) \<le> 3" by simp
  have le: "(3::int) \<le> 61785" by simp
  note t = rate_factor_positive_nonincreasing [OF n, of default_calculator]
  note a = t [THEN conjunct1, THEN mp, OF le]
  note b = t [THEN conjunct2, THEN conjunct2, THEN mp, OF h]
  show ?thesis
    by (rule conjI [OF n conjI [OF a b]])
qed

text \<open>
  C8 as stated fails: with 61786 periods the default calculator's \<open>compute_rate_factor\<close>
  raises \<open>OverflowError\<close> and returns no factor.
\<close>

theorem rate_factor_overflow:
  "compute_rate_factor_in ranged_arith default_calculator 61786 = Inl OverflowError"
proof -
  have o: "(61786::int) \<le> 61786" by simp
  show ?thesis using o by (rule compute_rate_factor_ranged_overflow)
qed

end
